theory Spec2Isabelle
  imports Complex_Main
begin

section \<open>The provenance chain of the secure camera system\<close>

text \<open>
  A shallow embedding of \<^verbatim>\<open>src/data/provenance.js\<close> (class ProvenanceTracker),
  \<^verbatim>\<open>src/data/database.js\<close> (class ProvenanceDatabase) and the signer (class ATECC608
  with the software fallback, which follows the database class in the same file).

  What the JavaScript takes from outside is an explicit argument of the model:
  \<^item> \<open>H\<close> is \<^verbatim>\<open>crypto.createHash('sha256').update(s).digest('hex')\<close>;
  \<^item> \<open>parse\<close> is \<^verbatim>\<open>JSON.parse\<close>, \<open>None\<close> when it throws a SyntaxError;
  \<^item> the values of \<^verbatim>\<open>uuidv4()\<close>, of the clocks, of \<^verbatim>\<open>Math.random()\<close>, the
    outcome of the signing primitives and the errors reported by the SQLite driver are
    fields of environment records, one record per call.
  The promise-returning methods are run to completion one after the other: the model is
  sequential.
\<close>

subsection \<open>JSON values and \<^verbatim>\<open>JSON.stringify\<close>\<close>

text \<open>
  The values that \<^verbatim>\<open>JSON.parse\<close> produces. A number is held as the decimal text that
  \<^verbatim>\<open>JSON.stringify\<close> prints for it; an object is the list of its members in property
  order.
\<close>

datatype json =
    JNull
  | JBool bool
  | JNumber string
  | JString string
  | JArray "json list"
  | JObject "(string \<times> json) list"

definition hex_digit :: "nat \<Rightarrow> char" where
  "hex_digit n = ''0123456789abcdef'' ! (n mod 16)"

text \<open>The escapes of a quoted JSON string: quote, backslash and the control characters.\<close>

definition quote_char :: "char \<Rightarrow> string" where
  "quote_char c =
     (if c = CHR 0x22 then [CHR 0x5C, CHR 0x22]
      else if c = CHR 0x5C then [CHR 0x5C, CHR 0x5C]
      else if c = CHR 0x08 then [CHR 0x5C, CHR ''b'']
      else if c = CHR 0x0C then [CHR 0x5C, CHR ''f'']
      else if c = CHR 0x0A then [CHR 0x5C, CHR ''n'']
      else if c = CHR 0x0D then [CHR 0x5C, CHR ''r'']
      else if c = CHR 0x09 then [CHR 0x5C, CHR ''t'']
      else if (of_char c :: nat) < 32
        then [CHR 0x5C, CHR ''u'', CHR ''0'', CHR ''0'',
              hex_digit (of_char c div 16), hex_digit (of_char c)]
      else [c])"

definition quote_string :: "string \<Rightarrow> string" where
  "quote_string s = CHR 0x22 # concat (map quote_char s) @ [CHR 0x22]"

fun JSON_stringify :: "json \<Rightarrow> string"
  and stringify_elements :: "json list \<Rightarrow> string"
  and stringify_members :: "(string \<times> json) list \<Rightarrow> string"
where
  "JSON_stringify JNull = ''null''"
| "JSON_stringify (JBool b) = (if b then ''true'' else ''false'')"
| "JSON_stringify (JNumber n) = n"
| "JSON_stringify (JString s) = quote_string s"
| "JSON_stringify (JArray vs) = ''['' @ stringify_elements vs @ '']''"
| "JSON_stringify (JObject ms) = ''{'' @ stringify_members ms @ ''}''"
| "stringify_elements [] = []"
| "stringify_elements [v] = JSON_stringify v"
| "stringify_elements (v # w # vs) = JSON_stringify v @ '','' @ stringify_elements (w # vs)"
| "stringify_members [] = []"
| "stringify_members [(k, v)] = quote_string k @ '':'' @ JSON_stringify v"
| "stringify_members ((k, v) # m # ms) =
     quote_string k @ '':'' @ JSON_stringify v @ '','' @ stringify_members (m # ms)"

text \<open>
  Reading a property: \<^verbatim>\<open>v.name\<close> throws a TypeError on \<^verbatim>\<open>null\<close>, is the member's
  value on an object that has the member, and is \<^verbatim>\<open>undefined\<close> (here \<open>None\<close>)
  otherwise. A later member of the same name wins, as in a JavaScript object.
\<close>

datatype error = SqliteError | UniqueViolation | SignError | TypeError | SyntaxError

definition property :: "json \<Rightarrow> string \<Rightarrow> error + json option" where
  "property v name =
     (case v of
        JNull \<Rightarrow> Inl TypeError
      | JObject ms \<Rightarrow> Inr (map_of (rev ms) name)
      | _ \<Rightarrow> Inr None)"

text \<open>JavaScript truthiness of a property value.\<close>

definition truthy :: "json option \<Rightarrow> bool" where
  "truthy v =
     (case v of
        None \<Rightarrow> False
      | Some JNull \<Rightarrow> False
      | Some (JBool b) \<Rightarrow> b
      | Some (JNumber n) \<Rightarrow> n \<noteq> ''0''
      | Some (JString s) \<Rightarrow> s \<noteq> []
      | Some (JArray _) \<Rightarrow> True
      | Some (JObject _) \<Rightarrow> True)"

subsection \<open>The two tables\<close>

text \<open>
  A row of table \<^verbatim>\<open>events\<close> and a row of table \<^verbatim>\<open>provenance_chain\<close>. The columns
  that the code tests for NULL are options. A table is the list of its rows in rowid
  order; the autoincrement \<^verbatim>\<open>id\<close> of both tables and the \<^verbatim>\<open>created_at\<close> of the chain
  table are read by no method and are left out.
\<close>

record event_row =
  ev_event_id :: string
  ev_timestamp :: string
  ev_rtc_timestamp :: string
  ev_event_type :: string
  ev_trigger_data :: "string option"
  ev_image_path :: string
  ev_image_hash :: string
  ev_signature :: "string option"
  ev_signature_info :: "string option"
  ev_verification_status :: int
  ev_created_at :: nat

record chain_row =
  ch_event_id :: string
  ch_previous_hash :: "string option"
  ch_current_hash :: string
  ch_chain_position :: int

record database =
  events :: "event_row list"
  provenance_chain :: "chain_row list"

text \<open>The object that \<^verbatim>\<open>logEvent\<close> receives.\<close>

record dbRecord =
  eventId :: string
  timestamp :: string
  rtcTimestamp :: string
  eventType :: string
  triggerData :: json
  imagePath :: string
  imageHash :: string
  signature :: "string option"
  signatureInfo :: json
  verificationStatus :: bool

text \<open>
  The row that the INSERT of \<^verbatim>\<open>logEvent\<close> writes; \<open>clock\<close> is the CURRENT_TIMESTAMP
  that the store gives it.
\<close>

definition inserted_row :: "nat \<Rightarrow> dbRecord \<Rightarrow> event_row" where
  "inserted_row clock eventData =
     \<lparr>ev_event_id = eventId eventData,
      ev_timestamp = timestamp eventData,
      ev_rtc_timestamp = rtcTimestamp eventData,
      ev_event_type = eventType eventData,
      ev_trigger_data = Some (JSON_stringify (triggerData eventData)),
      ev_image_path = imagePath eventData,
      ev_image_hash = imageHash eventData,
      ev_signature = signature eventData,
      ev_signature_info = Some (JSON_stringify (signatureInfo eventData)),
      ev_verification_status = (if verificationStatus eventData then 1 else 0),
      ev_created_at = clock\<rparr>"

text \<open>
  \<^verbatim>\<open>logEvent\<close>: one INSERT into \<^verbatim>\<open>events\<close>. It rejects when the driver reports an
  error (\<open>fault\<close>) and when the UNIQUE constraint on \<^verbatim>\<open>event_id\<close> fails.
\<close>

definition logEvent :: "database \<Rightarrow> bool \<Rightarrow> nat \<Rightarrow> dbRecord \<Rightarrow> error + database" where
  "logEvent d fault clock eventData =
     (if fault then Inl SqliteError
      else if eventId eventData \<in> set (map ev_event_id (events d)) then Inl UniqueViolation
      else Inr (d\<lparr>events := events d @ [inserted_row clock eventData]\<rparr>))"

text \<open>\<^verbatim>\<open>SELECT MAX(chain_position)\<close>: NULL on the empty table.\<close>

definition max_pos :: "chain_row list \<Rightarrow> int option" where
  "max_pos rows =
     (case rows of
        [] \<Rightarrow> None
      | r # rs \<Rightarrow> Some (fold (\<lambda>x m. max (ch_chain_position x) m) rs (ch_chain_position r)))"

text \<open>
  \<^verbatim>\<open>addToProvenanceChain\<close>: reads the largest position, then inserts the link at the
  next one. \<open>read_fault\<close> and \<open>insert_fault\<close> are the errors of the two statements.
  \<^verbatim>\<open>row.max_pos || 0\<close> is 0 for NULL and for 0.
\<close>

definition addToProvenanceChain ::
  "database \<Rightarrow> bool \<Rightarrow> bool \<Rightarrow> string \<Rightarrow> string option \<Rightarrow> string \<Rightarrow> error + int \<times> database"
where
  "addToProvenanceChain d read_fault insert_fault eventId' previousHash currentHash' =
     (if read_fault then Inl SqliteError
      else
        let position' = (case max_pos (provenance_chain d) of None \<Rightarrow> 0 | Some m \<Rightarrow> m) + 1
        in if insert_fault then Inl SqliteError
           else Inr (position', d\<lparr>provenance_chain := provenance_chain d @
             [\<lparr>ch_event_id = eventId',
               ch_previous_hash = previousHash,
               ch_current_hash = currentHash',
               ch_chain_position = position'\<rparr>]\<rparr>))"

subsection \<open>The queries\<close>

text \<open>
  A row of the join \<^verbatim>\<open>events e LEFT JOIN provenance_chain p ON e.event_id = p.event_id\<close>
  as the callback returns it: the two JSON columns parsed, the status as a boolean, and
  the chain columns NULL when the event has no link.
\<close>

record event_view =
  row_event_id :: string
  row_timestamp :: string
  row_rtc_timestamp :: string
  row_event_type :: string
  row_trigger_data :: json
  row_image_path :: string
  row_image_hash :: string
  row_signature :: "string option"
  row_signature_info :: json
  row_verification_status :: bool
  row_created_at :: nat
  row_current_hash :: "string option"
  row_previous_hash :: "string option"
  row_chain_position :: "int option"

definition left_join :: "chain_row list \<Rightarrow> event_row \<Rightarrow> (event_row \<times> chain_row option) list" where
  "left_join chain e =
     (case filter (\<lambda>p. ch_event_id p = ev_event_id e) chain of
        [] \<Rightarrow> [(e, None)]
      | ps \<Rightarrow> map (\<lambda>p. (e, Some p)) ps)"

text \<open>\<^verbatim>\<open>text || '{}'\<close>: NULL and the empty text are read as the empty object.\<close>

definition or_empty_object :: "string option \<Rightarrow> string" where
  "or_empty_object text = (case text of None \<Rightarrow> ''{}'' | Some s \<Rightarrow> if s = [] then ''{}'' else s)"

definition parse_row ::
  "(string \<Rightarrow> json option) \<Rightarrow> event_row \<times> chain_row option \<Rightarrow> error + event_view"
where
  "parse_row parse ep =
     (case ep of (e, p) \<Rightarrow>
        (case parse (or_empty_object (ev_trigger_data e)) of
           None \<Rightarrow> Inl SyntaxError
         | Some trigger \<Rightarrow>
            (case parse (or_empty_object (ev_signature_info e)) of
               None \<Rightarrow> Inl SyntaxError
             | Some info \<Rightarrow>
                 Inr \<lparr>row_event_id = ev_event_id e,
                      row_timestamp = ev_timestamp e,
                      row_rtc_timestamp = ev_rtc_timestamp e,
                      row_event_type = ev_event_type e,
                      row_trigger_data = trigger,
                      row_image_path = ev_image_path e,
                      row_image_hash = ev_image_hash e,
                      row_signature = ev_signature e,
                      row_signature_info = info,
                      row_verification_status = (ev_verification_status e \<noteq> 0),
                      row_created_at = ev_created_at e,
                      row_current_hash = map_option ch_current_hash p,
                      row_previous_hash = Option.bind p ch_previous_hash,
                      row_chain_position = map_option ch_chain_position p\<rparr>)))"

fun parse_rows ::
  "(string \<Rightarrow> json option) \<Rightarrow> (event_row \<times> chain_row option) list \<Rightarrow> error + event_view list"
where
  "parse_rows parse [] = Inr []"
| "parse_rows parse (r # rs) =
     (case parse_row parse r of
        Inl e \<Rightarrow> Inl e
      | Inr v \<Rightarrow> (case parse_rows parse rs of Inl e \<Rightarrow> Inl e | Inr vs \<Rightarrow> Inr (v # vs)))"

text \<open>
  \<^verbatim>\<open>getEvents(limit, offset)\<close>: the join, newest \<^verbatim>\<open>created_at\<close> first. SQLite leaves the
  order of rows with the same \<^verbatim>\<open>created_at\<close> open; the model keeps them in rowid order.
  The query does not select \<^verbatim>\<open>previous_hash\<close>. A SyntaxError of \<^verbatim>\<open>JSON.parse\<close> is
  thrown inside the driver's callback, where the promise does not reject.
\<close>

definition getEvents ::
  "(string \<Rightarrow> json option) \<Rightarrow> database \<Rightarrow> bool \<Rightarrow> nat \<Rightarrow> nat \<Rightarrow> error + event_view list"
where
  "getEvents parse d fault limit offset =
     (if fault then Inl SqliteError
      else
        let ordered = sort_key (\<lambda>e. - int (ev_created_at e)) (events d);
            rows = take limit (drop offset (concat (map (left_join (provenance_chain d)) ordered)))
        in case parse_rows parse rows of
             Inl e \<Rightarrow> Inl e
           | Inr vs \<Rightarrow> Inr (map (\<lambda>v. v\<lparr>row_previous_hash := None\<rparr>) vs))"

text \<open>\<^verbatim>\<open>getEventById\<close>: the first row of the join for that id, or null.\<close>

definition getEventById ::
  "(string \<Rightarrow> json option) \<Rightarrow> database \<Rightarrow> bool \<Rightarrow> string \<Rightarrow> error + event_view option"
where
  "getEventById parse d fault eventId' =
     (if fault then Inl SqliteError
      else
        case concat (map (left_join (provenance_chain d))
                       (filter (\<lambda>e. ev_event_id e = eventId') (events d))) of
          [] \<Rightarrow> Inr None
        | row # _ \<Rightarrow> (case parse_row parse row of Inl e \<Rightarrow> Inl e | Inr v \<Rightarrow> Inr (Some v)))"

subsection \<open>Verification of the chain\<close>

record chain_issue =
  position :: int
  issue :: string
  expected :: string
  actual :: "string option"

record chain_status =
  isValid :: bool
  totalEvents :: nat
  issues :: "chain_issue list"

text \<open>The loop \<^verbatim>\<open>for (let i = 1; i < rows.length; i++)\<close> with its two variables.\<close>

function verify_loop ::
  "chain_row list \<Rightarrow> nat \<Rightarrow> bool \<Rightarrow> chain_issue list \<Rightarrow> bool \<times> chain_issue list"
where
  "verify_loop rows i ok found =
     (if i < length rows then
        (if ch_previous_hash (rows ! i) \<noteq> Some (ch_current_hash (rows ! (i - 1)))
         then verify_loop rows (i + 1) False
                (found @ [\<lparr>position = ch_chain_position (rows ! i),
                           issue = ''Hash chain broken'',
                           expected = ch_current_hash (rows ! (i - 1)),
                           actual = ch_previous_hash (rows ! i)\<rparr>])
         else verify_loop rows (i + 1) ok found)
      else (ok, found))"
  by pat_completeness auto
termination
  by (relation "measure (\<lambda>(rows, i, ok, found). length rows - i)") auto

declare verify_loop.simps [simp del]

text \<open>
  \<^verbatim>\<open>verifyProvenanceChain\<close>: one SELECT of the chain table \<^verbatim>\<open>ORDER BY chain_position ASC\<close>
  (rows of equal position stay in rowid order), then the loop. It returns a value and
  no database: nothing is written.
\<close>

definition verifyProvenanceChain :: "database \<Rightarrow> bool \<Rightarrow> error + chain_status" where
  "verifyProvenanceChain d fault =
     (if fault then Inl SqliteError
      else
        let rows = sort_key ch_chain_position (provenance_chain d)
        in case verify_loop rows 1 True [] of
             (ok, found) \<Rightarrow> Inr \<lparr>isValid = ok, totalEvents = length rows, issues = found\<rparr>)"

text \<open>\<^verbatim>\<open>getStatistics\<close>: the three counts over table \<^verbatim>\<open>events\<close>.\<close>

record statistics =
  total_events :: nat
  signed_events :: nat
  verified_events :: nat

definition getStatistics :: "database \<Rightarrow> bool \<Rightarrow> error + statistics" where
  "getStatistics d fault =
     (if fault then Inl SqliteError
      else Inr \<lparr>total_events = length (events d),
                signed_events = length (filter (\<lambda>e. ev_signature e \<noteq> None) (events d)),
                verified_events = length (filter (\<lambda>e. ev_verification_status e = 1) (events d))\<rparr>)"

subsection \<open>The signer\<close>

record ATECC608 =
  initialized :: bool

record sign_result =
  sr_signature :: string
  sr_algorithm :: string
  sr_keyId :: string
  sr_hardware :: bool

text \<open>
  What the signing primitives answer in one call of \<^verbatim>\<open>signData\<close>: the hex text of the
  chip's response, or the error of the bus; the hex text of the software ECDSA
  signature, or the error of the crypto library.
\<close>

record sign_env =
  hw_response :: "error + string"
  sw_signature :: "error + string"

definition softwareSign :: "sign_env \<Rightarrow> string \<Rightarrow> error + sign_result" where
  "softwareSign env data =
     (case sw_signature env of
        Inl e \<Rightarrow> Inl e
      | Inr s \<Rightarrow> Inr \<lparr>sr_signature = s, sr_algorithm = ''ECDSA-SHA256'',
                      sr_keyId = ''SOFTWARE-FALLBACK'', sr_hardware = False\<rparr>)"

definition hardwareSign :: "sign_env \<Rightarrow> string \<Rightarrow> error + sign_result" where
  "hardwareSign env data =
     (case hw_response env of
        Inl e \<Rightarrow> softwareSign env data
      | Inr s \<Rightarrow> Inr \<lparr>sr_signature = s, sr_algorithm = ''ECDSA-SHA256'',
                      sr_keyId = ''ATECC608-SLOT0'', sr_hardware = True\<rparr>)"

definition signData :: "ATECC608 \<Rightarrow> sign_env \<Rightarrow> string \<Rightarrow> error + sign_result" where
  "signData dev env data =
     (if initialized dev then hardwareSign env data else softwareSign env data)"

text \<open>The object \<^verbatim>\<open>{signature, algorithm, keyId, hardware}\<close> as a JSON value.\<close>

definition sign_result_json :: "sign_result \<Rightarrow> json" where
  "sign_result_json r =
     JObject [(''signature'', JString (sr_signature r)),
              (''algorithm'', JString (sr_algorithm r)),
              (''keyId'', JString (sr_keyId r)),
              (''hardware'', JBool (sr_hardware r))]"

definition hardwareVerify :: "string \<Rightarrow> json \<Rightarrow> bool" where
  "hardwareVerify data signatureInfo' = True"

text \<open>
  \<^verbatim>\<open>Math.random() > 0.1\<close>: \<open>random\<close> is the value of the drawn double, \<open>0 \<le> random < 1\<close>,
  and the constant is the value of the double nearest to one tenth.
\<close>

definition softwareVerify :: "real \<Rightarrow> string \<Rightarrow> json \<Rightarrow> bool" where
  "softwareVerify random data signatureInfo' =
     (random > 3602879701896397 / 36028797018963968)"

definition verifySignature :: "ATECC608 \<Rightarrow> real \<Rightarrow> string \<Rightarrow> json \<Rightarrow> error + bool" where
  "verifySignature dev random data signatureInfo' =
     (case property signatureInfo' ''hardware'' of
        Inl e \<Rightarrow> Inl e
      | Inr h \<Rightarrow>
          if truthy h \<and> initialized dev then Inr (hardwareVerify data signatureInfo')
          else Inr (softwareVerify random data signatureInfo'))"

subsection \<open>The provenance tracker\<close>

record tracker =
  db :: database
  crypto :: ATECC608
  lastHash :: "string option"

text \<open>The constructor: \<^verbatim>\<open>this.lastHash = null\<close>.\<close>

definition new_tracker :: "database \<Rightarrow> ATECC608 \<Rightarrow> tracker" where
  "new_tracker d dev = \<lparr>db = d, crypto = dev, lastHash = None\<rparr>"

record imageData =
  base64Data :: string
  filepath :: string

definition calculateImageHash :: "(string \<Rightarrow> string) \<Rightarrow> imageData \<Rightarrow> string" where
  "calculateImageHash H imageData' = H (base64Data imageData')"

text \<open>
  The object \<^verbatim>\<open>eventData\<close> (and \<^verbatim>\<open>originalData\<close> of \<^verbatim>\<open>verifyEvent\<close>), as the list of its
  seven members in the order in which the source writes them.
\<close>

definition eventData ::
  "string \<Rightarrow> string \<Rightarrow> string \<Rightarrow> string \<Rightarrow> json \<Rightarrow> string \<Rightarrow> string option \<Rightarrow> (string \<times> json) list"
where
  "eventData eventId' timestamp' rtcTimestamp' eventType' triggerData' imageHash' previousHash =
     [(''eventId'', JString eventId'),
      (''timestamp'', JString timestamp'),
      (''rtcTimestamp'', JString rtcTimestamp'),
      (''eventType'', JString eventType'),
      (''triggerData'', triggerData'),
      (''imageHash'', JString imageHash'),
      (''previousHash'', (case previousHash of None \<Rightarrow> JNull | Some h \<Rightarrow> JString h))]"

text \<open>\<^verbatim>\<open>{...obj, name: v}\<close>: the member is replaced in place, or added at the end.\<close>

fun with_member :: "(string \<times> json) list \<Rightarrow> string \<Rightarrow> json \<Rightarrow> (string \<times> json) list" where
  "with_member [] name v = [(name, v)]"
| "with_member ((k, w) # ms) name v =
     (if k = name then (k, v) # ms else (k, w) # with_member ms name v)"

text \<open>\<^verbatim>\<open>signature || 'unsigned'\<close>: null and the empty text give the marker.\<close>

definition calculateEventHash ::
  "(string \<Rightarrow> string) \<Rightarrow> (string \<times> json) list \<Rightarrow> string option \<Rightarrow> string"
where
  "calculateEventHash H data sig =
     H (JSON_stringify (JObject (with_member data ''signature''
          (JString (case sig of None \<Rightarrow> ''unsigned'' | Some s \<Rightarrow> if s = [] then ''unsigned'' else s)))))"

text \<open>
  What one attempt to write a record takes from outside: the fresh identifier, the host
  clock, the clock of the RTC, and what the store does with the INSERT into
  \<^verbatim>\<open>events\<close> and with the two statements of \<^verbatim>\<open>addToProvenanceChain\<close>.
\<close>

record attempt_env =
  uuid :: string
  now :: string
  rtc_iso :: string
  log_fault :: bool
  clock :: nat
  read_fault :: bool
  insert_fault :: bool

text \<open>The object that a creation returns: \<^verbatim>\<open>{eventId, currentHash, signed, ...dbRecord}\<close>.\<close>

record provenance_record =
  currentHash :: string
  signed :: bool
  stored :: dbRecord

definition createUnsignedRecord ::
  "(string \<Rightarrow> string) \<Rightarrow> tracker \<Rightarrow> attempt_env \<Rightarrow> string \<Rightarrow> json \<Rightarrow> imageData
     \<Rightarrow> (error + provenance_record) \<times> tracker"
where
  "createUnsignedRecord H t env eventType' triggerData' imageData' =
     (let eventId' = uuid env;
          timestamp' = now env;
          rtcTimestamp' = rtc_iso env;
          imageHash' = calculateImageHash H imageData';
          data = eventData eventId' timestamp' rtcTimestamp' eventType' triggerData' imageHash'
                   (lastHash t);
          currentHash' = calculateEventHash H data None;
          dbRecord' = \<lparr>eventId = eventId', timestamp = timestamp', rtcTimestamp = rtcTimestamp',
                       eventType = eventType', triggerData = triggerData',
                       imagePath = filepath imageData', imageHash = imageHash',
                       signature = None,
                       signatureInfo = JObject [(''signed'', JBool False),
                                                (''reason'', JString ''Crypto device unavailable'')],
                       verificationStatus = False\<rparr>
      in case logEvent (db t) (log_fault env) (clock env) dbRecord' of
           Inl e \<Rightarrow> (Inl e, t)
         | Inr d1 \<Rightarrow>
            (case addToProvenanceChain d1 (read_fault env) (insert_fault env)
                    eventId' (lastHash t) currentHash' of
               Inl e \<Rightarrow> (Inl e, t\<lparr>db := d1\<rparr>)
             | Inr (position', d2) \<Rightarrow>
                 (Inr \<lparr>currentHash = currentHash', signed = False, stored = dbRecord'\<rparr>,
                  t\<lparr>db := d2, lastHash := Some currentHash'\<rparr>)))"

text \<open>
  One call of \<^verbatim>\<open>createProvenanceRecord\<close> takes the environment of its own attempt, the
  answers of the signer, and the environment of the attempt of \<^verbatim>\<open>createUnsignedRecord\<close>,
  which the catch clause runs after any error.
\<close>

record create_env =
  first_attempt :: attempt_env
  signer :: sign_env
  second_attempt :: attempt_env

definition createProvenanceRecord ::
  "(string \<Rightarrow> string) \<Rightarrow> tracker \<Rightarrow> create_env \<Rightarrow> string \<Rightarrow> json \<Rightarrow> imageData
     \<Rightarrow> (error + provenance_record) \<times> tracker"
where
  "createProvenanceRecord H t env eventType' triggerData' imageData' =
     (let eventId' = uuid (first_attempt env);
          timestamp' = now (first_attempt env);
          rtcTimestamp' = rtc_iso (first_attempt env);
          imageHash' = calculateImageHash H imageData';
          data = eventData eventId' timestamp' rtcTimestamp' eventType' triggerData' imageHash'
                   (lastHash t);
          dataToSign = JSON_stringify (JObject data)
      in case signData (crypto t) (signer env) dataToSign of
           Inl e \<Rightarrow> createUnsignedRecord H t (second_attempt env) eventType' triggerData' imageData'
         | Inr info \<Rightarrow>
            (let currentHash' = calculateEventHash H data (Some (sr_signature info));
                 dbRecord' = \<lparr>eventId = eventId', timestamp = timestamp',
                              rtcTimestamp = rtcTimestamp', eventType = eventType',
                              triggerData = triggerData', imagePath = filepath imageData',
                              imageHash = imageHash', signature = Some (sr_signature info),
                              signatureInfo = sign_result_json info,
                              verificationStatus = True\<rparr>
             in case logEvent (db t) (log_fault (first_attempt env)) (clock (first_attempt env))
                       dbRecord' of
                  Inl e \<Rightarrow>
                    createUnsignedRecord H t (second_attempt env) eventType' triggerData' imageData'
                | Inr d1 \<Rightarrow>
                   (case addToProvenanceChain d1 (read_fault (first_attempt env))
                           (insert_fault (first_attempt env)) eventId' (lastHash t) currentHash' of
                      Inl e \<Rightarrow>
                        createUnsignedRecord H (t\<lparr>db := d1\<rparr>) (second_attempt env)
                          eventType' triggerData' imageData'
                    | Inr (position', d2) \<Rightarrow>
                        (Inr \<lparr>currentHash = currentHash', signed = True, stored = dbRecord'\<rparr>,
                         t\<lparr>db := d2, lastHash := Some currentHash'\<rparr>))))"

text \<open>
  \<^verbatim>\<open>initialize\<close>: the newest row of \<^verbatim>\<open>getEvents(1, 0)\<close> gives the cursor. A rejection
  is logged and swallowed; a SyntaxError thrown in the driver's callback is not caught
  here.
\<close>

definition initialize ::
  "(string \<Rightarrow> json option) \<Rightarrow> tracker \<Rightarrow> bool \<Rightarrow> error + tracker"
where
  "initialize parse t fault =
     (case getEvents parse (db t) fault 1 0 of
        Inl e \<Rightarrow> if e = SyntaxError then Inl e else Inr t
      | Inr [] \<Rightarrow> Inr t
      | Inr (newest # _) \<Rightarrow> Inr (t\<lparr>lastHash := row_current_hash newest\<rparr>))"

text \<open>
  The four shapes of the object that \<^verbatim>\<open>verifyEvent\<close> returns:
  \<^verbatim>\<open>{valid: false, reason: 'Event not found'}\<close>,
  \<^verbatim>\<open>{valid: false, reason: 'Event not signed', event}\<close>,
  \<^verbatim>\<open>{valid, event, signatureInfo}\<close> and
  \<^verbatim>\<open>{valid: false, reason: 'Verification failed', error}\<close>.
\<close>

datatype verification =
    EventNotFound
  | EventNotSigned event_view
  | Verified bool event_view json
  | VerificationFailed error

fun valid :: "verification \<Rightarrow> bool" where
  "valid EventNotFound = False"
| "valid (EventNotSigned event) = False"
| "valid (Verified isValid' event info) = isValid'"
| "valid (VerificationFailed e) = False"

fun reason :: "verification \<Rightarrow> string option" where
  "reason EventNotFound = Some ''Event not found''"
| "reason (EventNotSigned event) = Some ''Event not signed''"
| "reason (Verified isValid' event info) = None"
| "reason (VerificationFailed e) = Some ''Verification failed''"

text \<open>\<^verbatim>\<open>!event.signature\<close>: null and the empty text.\<close>

definition no_signature :: "string option \<Rightarrow> bool" where
  "no_signature sig = (case sig of None \<Rightarrow> True | Some s \<Rightarrow> s = [])"

text \<open>
  \<^verbatim>\<open>verifyEvent\<close>. \<open>Inl\<close> is the SyntaxError that escapes through the driver's callback;
  every other error is caught and returned as data.
\<close>

definition verifyEvent ::
  "(string \<Rightarrow> json option) \<Rightarrow> tracker \<Rightarrow> bool \<Rightarrow> real \<Rightarrow> string \<Rightarrow> error + verification"
where
  "verifyEvent parse t fault random eventId' =
     (case getEventById parse (db t) fault eventId' of
        Inl e \<Rightarrow> if e = SyntaxError then Inl e else Inr (VerificationFailed e)
      | Inr None \<Rightarrow> Inr EventNotFound
      | Inr (Some event) \<Rightarrow>
          if no_signature (row_signature event) then Inr (EventNotSigned event)
          else
           (let originalData = eventData (row_event_id event) (row_timestamp event)
                  (row_rtc_timestamp event) (row_event_type event) (row_trigger_data event)
                  (row_image_hash event) (row_previous_hash event);
                dataToVerify = JSON_stringify (JObject originalData)
            in case verifySignature (crypto t) random dataToVerify (row_signature_info event) of
                 Inl e \<Rightarrow> Inr (VerificationFailed e)
               | Inr isValid' \<Rightarrow> Inr (Verified isValid' event (row_signature_info event))))"

text \<open>
  \<^verbatim>\<open>getProvenanceChainStatus\<close>, without the formatted \<^verbatim>\<open>signatureRate\<close>. \<open>None\<close> is
  the object \<^verbatim>\<open>{chainValid: false, error}\<close> of the catch clause.
\<close>

record chain_report =
  chainValid :: bool
  totalEvents' :: nat
  signedEvents :: nat
  verifiedEvents :: nat
  issues' :: "chain_issue list"

definition getProvenanceChainStatus :: "tracker \<Rightarrow> bool \<Rightarrow> bool \<Rightarrow> chain_report option" where
  "getProvenanceChainStatus t chain_fault stats_fault =
     (case verifyProvenanceChain (db t) chain_fault of
        Inl e \<Rightarrow> None
      | Inr chainStatus \<Rightarrow>
         (case getStatistics (db t) stats_fault of
            Inl e \<Rightarrow> None
          | Inr stats \<Rightarrow>
              Some \<lparr>chainValid = isValid chainStatus,
                    totalEvents' = total_events stats,
                    signedEvents = signed_events stats,
                    verifiedEvents = verified_events stats,
                    issues' = issues chainStatus\<rparr>))"

subsection \<open>A sequence of creations\<close>

text \<open>
  The server calls \<^verbatim>\<open>createProvenanceRecord\<close> once per trigger and goes on after an
  error. One creation is the call's arguments together with what the call takes from
  outside.
\<close>

record creation =
  creation_env :: create_env
  creation_type :: string
  creation_trigger :: json
  creation_image :: imageData

fun create_all ::
  "(string \<Rightarrow> string) \<Rightarrow> tracker \<Rightarrow> creation list
     \<Rightarrow> (error + provenance_record) list \<times> tracker"
where
  "create_all H t [] = ([], t)"
| "create_all H t (c # cs) =
     (case createProvenanceRecord H t (creation_env c) (creation_type c) (creation_trigger c) (creation_image c) of
        (r, t1) \<Rightarrow> (case create_all H t1 cs of (rs, t2) \<Rightarrow> (r # rs, t2)))"

text \<open>No statement of the attempt is failed by the store.\<close>

definition no_fault :: "attempt_env \<Rightarrow> bool" where
  "no_fault a = (\<not> log_fault a \<and> \<not> read_fault a \<and> \<not> insert_fault a)"

text \<open>The identifiers that \<^verbatim>\<open>uuidv4()\<close> hands to the creations of a sequence.\<close>

definition uuids :: "creation list \<Rightarrow> string list" where
  "uuids cs =
     concat (map (\<lambda>c. [uuid (first_attempt (creation_env c)), uuid (second_attempt (creation_env c))]) cs)"

subsection \<open>Notions of the specification\<close>

text \<open>
  The trust tag of a signature description, read from its member \<^verbatim>\<open>hardware\<close>: the
  signer writes \<^verbatim>\<open>hardware: true\<close> for the chip and \<^verbatim>\<open>hardware: false\<close> for the software
  fallback; the description of an unsigned record has no such member.
\<close>

datatype trust = Hardware | Software | Absent

definition trust_tag :: "json \<Rightarrow> trust" where
  "trust_tag info =
     (case property info ''hardware'' of
        Inl e \<Rightarrow> Absent
      | Inr None \<Rightarrow> Absent
      | Inr (Some h) \<Rightarrow> if truthy (Some h) then Hardware else Software)"

text \<open>The positions of the stored links are 1, 2, ..., n.\<close>

definition contiguous_from_1 :: "chain_row list \<Rightarrow> bool" where
  "contiguous_from_1 rows =
     (map ch_chain_position (sort_key ch_chain_position rows) = map int [1..<Suc (length rows)])"

text \<open>The \<^verbatim>\<open>current_hash\<close> of the last link, or nothing on the empty chain.\<close>

definition tail_hash :: "chain_row list \<Rightarrow> string option" where
  "tail_hash rows = (if rows = [] then None else Some (ch_current_hash (last rows)))"

subsection \<open>Auxiliary definitions\<close>

text \<open>
  The issues that the loop of \<^verbatim>\<open>verifyProvenanceChain\<close> finds from index \<open>i\<close> on, as one
  expression.
\<close>

definition issues_from :: "chain_row list \<Rightarrow> nat \<Rightarrow> chain_issue list" where
  "issues_from rows i =
     concat (map (\<lambda>j. if ch_previous_hash (rows ! j) \<noteq> Some (ch_current_hash (rows ! (j - 1)))
                        then [\<lparr>position = ch_chain_position (rows ! j),
                               issue = ''Hash chain broken'',
                               expected = ch_current_hash (rows ! (j - 1)),
                               actual = ch_previous_hash (rows ! j)\<rparr>]
                        else []) [i..<length rows])"

text \<open>The position that \<^verbatim>\<open>addToProvenanceChain\<close> gives the next link.\<close>

definition next_position :: "database \<Rightarrow> int" where
  "next_position d = (case max_pos (provenance_chain d) of None \<Rightarrow> 0 | Some m \<Rightarrow> m) + 1"

text \<open>
  The two ways in which an attempt changes the tracker: it leaves an event row without a
  link, or it writes an event row and its link and moves the cursor.
\<close>

definition orphan_written :: "string \<Rightarrow> tracker \<Rightarrow> tracker \<Rightarrow> bool" where
  "orphan_written u t t' =
     (\<exists>row. ev_event_id row = u \<and> u \<notin> set (map ev_event_id (events (db t))) \<and>
            t' = t\<lparr>db := (db t)\<lparr>events := events (db t) @ [row]\<rparr>\<rparr>)"

definition link_written ::
  "(string \<Rightarrow> string) \<Rightarrow> json \<Rightarrow> event_row \<Rightarrow> chain_row \<Rightarrow> tracker \<Rightarrow> tracker \<Rightarrow> bool"
where
  "link_written H td row link t t' =
     (ev_event_id row \<notin> set (map ev_event_id (events (db t))) \<and>
      ev_trigger_data row = Some (JSON_stringify td) \<and>
      ch_event_id link = ev_event_id row \<and>
      ch_previous_hash link = lastHash t \<and>
      ch_chain_position link = next_position (db t) \<and>
      ch_current_hash link =
        calculateEventHash H
          (eventData (ev_event_id row) (ev_timestamp row) (ev_rtc_timestamp row)
             (ev_event_type row) td (ev_image_hash row) (lastHash t))
          (ev_signature row) \<and>
      t' = t\<lparr>db := \<lparr>events = events (db t) @ [row],
                      provenance_chain = provenance_chain (db t) @ [link]\<rparr>,
              lastHash := Some (ch_current_hash link)\<rparr>)"

definition attempt_effect ::
  "(string \<Rightarrow> string) \<Rightarrow> json \<Rightarrow> string \<Rightarrow> tracker \<Rightarrow> error + provenance_record \<Rightarrow> tracker
     \<Rightarrow> bool"
where
  "attempt_effect H td u t r t' =
     ((isl r \<and> t' = t) \<or> (isl r \<and> orphan_written u t t') \<or>
      (\<not> isl r \<and> (\<exists>row link. ev_event_id row = u \<and> link_written H td row link t t')))"

text \<open>Every link points to the hash of the link before it, the first one to \<open>h\<close>.\<close>

fun linked_from :: "string option \<Rightarrow> chain_row list \<Rightarrow> bool" where
  "linked_from h [] = True"
| "linked_from h (r # rs) =
     (ch_previous_hash r = h \<and> linked_from (Some (ch_current_hash r)) rs)"

text \<open>The invariant of the tracker: a linked chain at positions 1..n, the cursor at its tail.\<close>

definition chain_inv :: "tracker \<Rightarrow> bool" where
  "chain_inv t =
     (linked_from None (provenance_chain (db t)) \<and>
      map ch_chain_position (provenance_chain (db t)) =
        map int [1..<Suc (length (provenance_chain (db t)))] \<and>
      lastHash t = tail_hash (provenance_chain (db t)))"

text \<open>
  The invariant of the store: every link belongs to an event row, and its hash is the hash
  of that row's fields, of the trigger data that the row's text parses to, of the link's
  previous hash and of the row's signature.
\<close>

definition hash_inv :: "(string \<Rightarrow> json option) \<Rightarrow> (string \<Rightarrow> string) \<Rightarrow> database \<Rightarrow> bool" where
  "hash_inv parse H d =
     ((\<forall>p\<in>set (provenance_chain d). ch_event_id p \<in> set (map ev_event_id (events d))) \<and>
      (\<forall>e\<in>set (events d). \<forall>p\<in>set (provenance_chain d).
         ch_event_id p = ev_event_id e \<longrightarrow>
         (\<exists>td. parse (or_empty_object (ev_trigger_data e)) = Some td \<and>
               ch_current_hash p =
                 calculateEventHash H
                   (eventData (ev_event_id e) (ev_timestamp e) (ev_rtc_timestamp e)
                      (ev_event_type e) td (ev_image_hash e) (ch_previous_hash p))
                   (ev_signature e))))"

text \<open>The two JSON columns of every event row are texts that \<^verbatim>\<open>JSON.parse\<close> accepts.\<close>

definition columns_parse :: "(string \<Rightarrow> json option) \<Rightarrow> database \<Rightarrow> bool" where
  "columns_parse parse d =
     (\<forall>e\<in>set (events d).
        parse (or_empty_object (ev_trigger_data e)) \<noteq> None \<and>
        parse (or_empty_object (ev_signature_info e)) \<noteq> None)"

section \<open>Properties\<close>

subsection \<open>The signer's verification\<close>

lemma trust_tag_sign_result [simp]:
  "trust_tag (sign_result_json r) = (if sr_hardware r then Hardware else Software)"
  by (simp add: trust_tag_def sign_result_json_def property_def truthy_def)

lemma verifySignature_software:
  "trust_tag info = Software \<Longrightarrow>
   verifySignature dev r data info = Inr (softwareVerify r data info)"
  by (auto simp: trust_tag_def verifySignature_def split: sum.splits option.splits if_splits)

lemma verifySignature_hardware:
  "trust_tag info = Hardware \<Longrightarrow>
   verifySignature dev r data info =
     (if initialized dev then Inr (hardwareVerify data info)
      else Inr (softwareVerify r data info))"
  by (auto simp: trust_tag_def verifySignature_def split: sum.splits option.splits if_splits)

text \<open>
  Claim C7, as the code has it. \<^verbatim>\<open>verifySignature\<close> runs the hardware routine exactly
  when the trust tag is hardware and the chip is initialised. A software-trust signature
  is never checked with the hardware routine. A hardware-trust signature met by a device
  that is not initialised is not rejected: it is handed to the software routine.
\<close>

theorem verifySignature_dispatch:
  "(trust_tag info = Software \<longrightarrow>
      verifySignature dev r data info = Inr (softwareVerify r data info)) \<and>
   (trust_tag info = Hardware \<and> initialized dev \<longrightarrow>
      verifySignature dev r data info = Inr (hardwareVerify data info)) \<and>
   (trust_tag info = Hardware \<and> \<not> initialized dev \<longrightarrow>
      verifySignature dev r data info = Inr (softwareVerify r data info))"
  by (simp add: verifySignature_software verifySignature_hardware)

theorem verifySignature_dispatch_witness:
  "verifySignature \<lparr>initialized = True\<rparr> (1 / 2) ''data''
     (sign_result_json \<lparr>sr_signature = ''3045'', sr_algorithm = ''ECDSA-SHA256'',
       sr_keyId = ''SOFTWARE-FALLBACK'', sr_hardware = False\<rparr>) = Inr True \<and>
   verifySignature \<lparr>initialized = True\<rparr> (1 / 20) ''data''
     (sign_result_json \<lparr>sr_signature = ''3045'', sr_algorithm = ''ECDSA-SHA256'',
       sr_keyId = ''ATECC608-SLOT0'', sr_hardware = True\<rparr>) = Inr True \<and>
   verifySignature \<lparr>initialized = False\<rparr> (1 / 20) ''data''
     (sign_result_json \<lparr>sr_signature = ''3045'', sr_algorithm = ''ECDSA-SHA256'',
       sr_keyId = ''ATECC608-SLOT0'', sr_hardware = True\<rparr>) = Inr False"
  using
    verifySignature_dispatch [of "sign_result_json \<lparr>sr_signature = ''3045'',
       sr_algorithm = ''ECDSA-SHA256'', sr_keyId = ''SOFTWARE-FALLBACK'', sr_hardware = False\<rparr>"
       "\<lparr>initialized = True\<rparr>" "1 / 2" "''data''"]
    verifySignature_dispatch [of "sign_result_json \<lparr>sr_signature = ''3045'',
       sr_algorithm = ''ECDSA-SHA256'', sr_keyId = ''ATECC608-SLOT0'', sr_hardware = True\<rparr>"
       "\<lparr>initialized = True\<rparr>" "1 / 20" "''data''"]
    verifySignature_dispatch [of "sign_result_json \<lparr>sr_signature = ''3045'',
       sr_algorithm = ''ECDSA-SHA256'', sr_keyId = ''ATECC608-SLOT0'', sr_hardware = True\<rparr>"
       "\<lparr>initialized = False\<rparr>" "1 / 20" "''data''"]
  by (simp add: softwareVerify_def hardwareVerify_def)

text \<open>
  Claim C7 as stated fails. The signature description below carries the hardware tag; the
  device is not initialised. At the draw 1/20 the answer is \<open>False\<close>, which the hardware
  routine never gives: the software routine checked it. At the draw 1/2 the answer is
  \<open>True\<close>: the mismatch is accepted.
\<close>

theorem verifySignature_mismatch_counterexample:
  "trust_tag (sign_result_json \<lparr>sr_signature = ''3045'', sr_algorithm = ''ECDSA-SHA256'',
       sr_keyId = ''ATECC608-SLOT0'', sr_hardware = True\<rparr>) = Hardware \<and>
   verifySignature \<lparr>initialized = False\<rparr> (1 / 20) ''data''
     (sign_result_json \<lparr>sr_signature = ''3045'', sr_algorithm = ''ECDSA-SHA256'',
       sr_keyId = ''ATECC608-SLOT0'', sr_hardware = True\<rparr>) = Inr False \<and>
   hardwareVerify ''data''
     (sign_result_json \<lparr>sr_signature = ''3045'', sr_algorithm = ''ECDSA-SHA256'',
       sr_keyId = ''ATECC608-SLOT0'', sr_hardware = True\<rparr>) = True \<and>
   verifySignature \<lparr>initialized = False\<rparr> (1 / 2) ''data''
     (sign_result_json \<lparr>sr_signature = ''3045'', sr_algorithm = ''ECDSA-SHA256'',
       sr_keyId = ''ATECC608-SLOT0'', sr_hardware = True\<rparr>) = Inr True"
  by (simp add: verifySignature_hardware softwareVerify_def hardwareVerify_def)

text \<open>
  Claim C10. For a software-trust signature the answer of \<^verbatim>\<open>verifySignature\<close> changes
  with the random draw alone: two calls on the same data and the same signature
  description can differ, and at one draw the answer is the same for every data and
  every software-trust description.
\<close>

theorem software_verification_random:
  assumes "trust_tag info = Software"
  shows "(\<exists>r r'. 0 \<le> r \<and> r < 1 \<and> 0 \<le> r' \<and> r' < 1 \<and>
            verifySignature dev r data info \<noteq> verifySignature dev r' data info) \<and>
         (\<forall>r data' info'. trust_tag info' = Software \<longrightarrow>
            verifySignature dev r data' info' = verifySignature dev r data info)"
proof
  have "verifySignature dev (1 / 2) data info \<noteq> verifySignature dev (1 / 20) data info"
    by (simp add: verifySignature_software [OF assms] softwareVerify_def)
  moreover have "(0::real) \<le> 1 / 2 \<and> (1::real) / 2 < 1 \<and> (0::real) \<le> 1 / 20 \<and> (1::real) / 20 < 1"
    by simp
  ultimately show "\<exists>r r'. 0 \<le> r \<and> r < 1 \<and> 0 \<le> r' \<and> r' < 1 \<and>
      verifySignature dev r data info \<noteq> verifySignature dev r' data info"
    by blast
next
  show "\<forall>r data' info'. trust_tag info' = Software \<longrightarrow>
      verifySignature dev r data' info' = verifySignature dev r data info"
    by (simp add: verifySignature_software assms softwareVerify_def)
qed

theorem software_verification_random_witness:
  "trust_tag (sign_result_json \<lparr>sr_signature = ''3045'', sr_algorithm = ''ECDSA-SHA256'',
       sr_keyId = ''SOFTWARE-FALLBACK'', sr_hardware = False\<rparr>) = Software \<and>
   (\<exists>r r'. 0 \<le> r \<and> r < 1 \<and> 0 \<le> r' \<and> r' < 1 \<and>
      verifySignature \<lparr>initialized = True\<rparr> r ''data''
        (sign_result_json \<lparr>sr_signature = ''3045'', sr_algorithm = ''ECDSA-SHA256'',
          sr_keyId = ''SOFTWARE-FALLBACK'', sr_hardware = False\<rparr>) \<noteq>
      verifySignature \<lparr>initialized = True\<rparr> r' ''data''
        (sign_result_json \<lparr>sr_signature = ''3045'', sr_algorithm = ''ECDSA-SHA256'',
          sr_keyId = ''SOFTWARE-FALLBACK'', sr_hardware = False\<rparr>))"
proof -
  have sw: "trust_tag (sign_result_json \<lparr>sr_signature = ''3045'',
      sr_algorithm = ''ECDSA-SHA256'', sr_keyId = ''SOFTWARE-FALLBACK'',
      sr_hardware = False\<rparr>) = Software"
    by simp
  show ?thesis
    using sw software_verification_random [OF sw, of "\<lparr>initialized = True\<rparr>" "''data''"]
    by blast
qed

subsection \<open>Verification of the chain\<close>


lemma verify_loop_eq:
  "verify_loop rows i ok found = (ok \<and> issues_from rows i = [], found @ issues_from rows i)"
proof (induction rows i ok found rule: verify_loop.induct)
  case (1 rows i ok found)
  show ?case
  proof (cases "i < length rows")
    case True
    then have u: "[i..<length rows] = i # [Suc i..<length rows]"
      by (simp add: upt_conv_Cons)
    show ?thesis
      using True 1 by (subst verify_loop.simps) (simp add: issues_from_def u)
  next
    case False
    then show ?thesis
      by (subst verify_loop.simps) (simp add: issues_from_def)
  qed
qed

lemma verifyProvenanceChain_eq:
  "verifyProvenanceChain d False =
     Inr \<lparr>isValid = (issues_from (sort_key ch_chain_position (provenance_chain d)) 1 = []),
          totalEvents = length (provenance_chain d),
          issues = issues_from (sort_key ch_chain_position (provenance_chain d)) 1\<rparr>"
  by (simp add: verifyProvenanceChain_def verify_loop_eq Let_def)

lemma concat_map_if_Nil:
  "concat (map (\<lambda>j. if P j then [f j] else []) xs) = [] \<longleftrightarrow> (\<forall>j\<in>set xs. \<not> P j)"
  by (induction xs) auto

lemma issues_from_empty_iff:
  "issues_from rows 1 = [] \<longleftrightarrow>
     (\<forall>i. 0 < i \<and> i < length rows \<longrightarrow>
        ch_previous_hash (rows ! i) = Some (ch_current_hash (rows ! (i - 1))))"
proof -
  have "issues_from rows 1 = [] \<longleftrightarrow>
        (\<forall>j\<in>set [1..<length rows].
           ch_previous_hash (rows ! j) = Some (ch_current_hash (rows ! (j - 1))))"
    unfolding issues_from_def concat_map_if_Nil by simp
  also have "\<dots> \<longleftrightarrow> (\<forall>i. 0 < i \<and> i < length rows \<longrightarrow>
        ch_previous_hash (rows ! i) = Some (ch_current_hash (rows ! (i - 1))))"
    by (auto simp: Suc_le_eq)
  finally show ?thesis .
qed

text \<open>
  Claim C3, as the code has it. \<^verbatim>\<open>verifyProvenanceChain\<close> answers \<^verbatim>\<open>isValid\<close> exactly when
  its list of issues is empty, and that list is empty exactly when every link after the
  first (in position order) carries the hash of the link before it. The positions
  themselves are not examined. The method is a function of the chain table that returns
  no database: it writes nothing.
\<close>

theorem verify_chain_result:
  "\<exists>s. verifyProvenanceChain d False = Inr s \<and>
       (isValid s \<longleftrightarrow> issues s = []) \<and>
       totalEvents s = length (provenance_chain d) \<and>
       (issues s = [] \<longleftrightarrow>
          (\<forall>i. 0 < i \<and> i < length (provenance_chain d) \<longrightarrow>
             ch_previous_hash (sort_key ch_chain_position (provenance_chain d) ! i) =
             Some (ch_current_hash (sort_key ch_chain_position (provenance_chain d) ! (i - 1)))))"
  using issues_from_empty_iff [of "sort_key ch_chain_position (provenance_chain d)"]
  by (simp add: verifyProvenanceChain_eq)

theorem verify_chain_result_witness:
  "\<exists>s. verifyProvenanceChain
          \<lparr>events = [],
           provenance_chain =
             [\<lparr>ch_event_id = ''a'', ch_previous_hash = None, ch_current_hash = ''h1'',
               ch_chain_position = 1\<rparr>,
              \<lparr>ch_event_id = ''b'', ch_previous_hash = Some ''h1'', ch_current_hash = ''h2'',
               ch_chain_position = 2\<rparr>]\<rparr> False = Inr s \<and>
        isValid s \<and> issues s = [] \<and> totalEvents s = 2"
proof -
  let ?d = "\<lparr>events = [],
           provenance_chain =
             [\<lparr>ch_event_id = ''a'', ch_previous_hash = None, ch_current_hash = ''h1'',
               ch_chain_position = 1\<rparr>,
              \<lparr>ch_event_id = ''b'', ch_previous_hash = Some ''h1'', ch_current_hash = ''h2'',
               ch_chain_position = 2\<rparr>]\<rparr>"
  have "\<forall>i. 0 < i \<and> i < length (provenance_chain ?d) \<longrightarrow>
          ch_previous_hash (sort_key ch_chain_position (provenance_chain ?d) ! i) =
          Some (ch_current_hash (sort_key ch_chain_position (provenance_chain ?d) ! (i - 1)))"
    by (auto simp: less_Suc_eq)
  with verify_chain_result [of ?d] show ?thesis
    by auto
qed

text \<open>
  Claim C3 as stated fails. The first link of a chain of three was deleted: the two
  links left stand at positions 2 and 3, and \<^verbatim>\<open>verifyProvenanceChain\<close> answers valid
  with no issue.
\<close>

theorem verify_chain_positions_counterexample:
  "verifyProvenanceChain
     \<lparr>events = [],
      provenance_chain =
        [\<lparr>ch_event_id = ''b'', ch_previous_hash = Some ''h1'', ch_current_hash = ''h2'',
          ch_chain_position = 2\<rparr>,
         \<lparr>ch_event_id = ''c'', ch_previous_hash = Some ''h2'', ch_current_hash = ''h3'',
          ch_chain_position = 3\<rparr>]\<rparr> False =
     Inr \<lparr>isValid = True, totalEvents = 2, issues = []\<rparr> \<and>
   \<not> contiguous_from_1
        [\<lparr>ch_event_id = ''b'', ch_previous_hash = Some ''h1'', ch_current_hash = ''h2'',
          ch_chain_position = 2\<rparr>,
         \<lparr>ch_event_id = ''c'', ch_previous_hash = Some ''h2'', ch_current_hash = ''h3'',
          ch_chain_position = 3\<rparr>]"
  by (simp add: verifyProvenanceChain_eq issues_from_def contiguous_from_1_def upt_rec)

subsection \<open>Tampering and the verification of the chain\<close>

lemma concat_map_single:
  "concat (map (\<lambda>j. if j = k then [x] else []) [a..<b]) = (if a \<le> k \<and> k < b then [x] else [])"
  by (induction b) auto

lemma verifyProvenanceChain_events [simp]:
  "verifyProvenanceChain (d\<lparr>events := es\<rparr>) f = verifyProvenanceChain d f"
  by (simp add: verifyProvenanceChain_def)

lemma verifyProvenanceChain_sorted:
  assumes "sorted (map ch_chain_position rows)"
  shows "verifyProvenanceChain (d\<lparr>provenance_chain := rows\<rparr>) False =
     Inr \<lparr>isValid = (issues_from rows 1 = []), totalEvents = length rows,
          issues = issues_from rows 1\<rparr>"
  by (simp add: verifyProvenanceChain_eq sort_key_id_if_sorted [OF assms])

lemma issues_from_single:
  assumes "0 < k" and "k < length rows"
    and "ch_previous_hash (rows ! k) \<noteq> Some (ch_current_hash (rows ! (k - 1)))"
    and "\<forall>j. 0 < j \<and> j < length rows \<and> j \<noteq> k \<longrightarrow>
           ch_previous_hash (rows ! j) = Some (ch_current_hash (rows ! (j - 1)))"
  shows "issues_from rows 1 =
     [\<lparr>position = ch_chain_position (rows ! k), issue = ''Hash chain broken'',
       expected = ch_current_hash (rows ! (k - 1)), actual = ch_previous_hash (rows ! k)\<rparr>]"
proof -
  let ?x = "\<lparr>position = ch_chain_position (rows ! k), issue = ''Hash chain broken'',
       expected = ch_current_hash (rows ! (k - 1)), actual = ch_previous_hash (rows ! k)\<rparr>"
  have "map (\<lambda>j. if ch_previous_hash (rows ! j) \<noteq> Some (ch_current_hash (rows ! (j - 1)))
                  then [\<lparr>position = ch_chain_position (rows ! j),
                         issue = ''Hash chain broken'',
                         expected = ch_current_hash (rows ! (j - 1)),
                         actual = ch_previous_hash (rows ! j)\<rparr>]
                  else []) [1..<length rows] =
        map (\<lambda>j. if j = k then [?x] else []) [1..<length rows]"
    using assms(3,4) by (intro map_cong) auto
  from arg_cong [OF this, of concat]
  have "issues_from rows 1 = concat (map (\<lambda>j. if j = k then [?x] else []) [1..<length rows])"
    unfolding issues_from_def .
  also have "\<dots> = [?x]"
    using assms(1,2) by (simp only: concat_map_single) simp
  finally show ?thesis .
qed

text \<open>
  Claim C2, as the code has it. Take a store whose links are in position order and that
  \<^verbatim>\<open>verifyProvenanceChain\<close> reports valid. Whatever is done to the event rows, the
  answer stays the same: the method reads only the chain table and recomputes no hash.
  Changing the \<^verbatim>\<open>current_hash\<close> of a link that has a successor gives exactly one issue,
  at the position of the next link. Changing the \<^verbatim>\<open>previous_hash\<close> of a link other than
  the first gives exactly one issue, at the altered link itself.
\<close>

theorem link_tampering_detected:
  assumes "verifyProvenanceChain d False = Inr s" and "isValid s"
    and "sorted (map ch_chain_position (provenance_chain d))"
  shows "verifyProvenanceChain (d\<lparr>events := es\<rparr>) False = Inr s \<and>
    (\<forall>i h. Suc i < length (provenance_chain d) \<and> h \<noteq> ch_current_hash (provenance_chain d ! i) \<longrightarrow>
       verifyProvenanceChain
         (d\<lparr>provenance_chain := (provenance_chain d)
              [i := (provenance_chain d ! i)\<lparr>ch_current_hash := h\<rparr>]\<rparr>) False =
       Inr \<lparr>isValid = False, totalEvents = length (provenance_chain d),
            issues = [\<lparr>position = ch_chain_position (provenance_chain d ! Suc i),
                       issue = ''Hash chain broken'', expected = h,
                       actual = ch_previous_hash (provenance_chain d ! Suc i)\<rparr>]\<rparr>) \<and>
    (\<forall>i x. 0 < i \<and> i < length (provenance_chain d) \<and>
           x \<noteq> ch_previous_hash (provenance_chain d ! i) \<longrightarrow>
       verifyProvenanceChain
         (d\<lparr>provenance_chain := (provenance_chain d)
              [i := (provenance_chain d ! i)\<lparr>ch_previous_hash := x\<rparr>]\<rparr>) False =
       Inr \<lparr>isValid = False, totalEvents = length (provenance_chain d),
            issues = [\<lparr>position = ch_chain_position (provenance_chain d ! i),
                       issue = ''Hash chain broken'',
                       expected = ch_current_hash (provenance_chain d ! (i - 1)),
                       actual = x\<rparr>]\<rparr>)"
proof (intro conjI allI impI)
  let ?rows = "provenance_chain d"
  from assms(1) show "verifyProvenanceChain (d\<lparr>events := es\<rparr>) False = Inr s" by simp
  from assms(1,2) have "issues_from (sort_key ch_chain_position ?rows) 1 = []"
    by (auto simp: verifyProvenanceChain_eq)
  then have "issues_from ?rows 1 = []"
    by (simp add: sort_key_id_if_sorted [OF assms(3)])
  then have "\<forall>j. 0 < j \<and> j < length ?rows \<longrightarrow>
      ch_previous_hash (?rows ! j) = Some (ch_current_hash (?rows ! (j - 1)))"
    by (simp only: issues_from_empty_iff)
  then have ok: "ch_previous_hash (?rows ! j) = Some (ch_current_hash (?rows ! (j - 1)))"
    if "0 < j" "j < length ?rows" for j
    using that by blast
  {
    fix i h
    assume a: "Suc i < length ?rows \<and> h \<noteq> ch_current_hash (?rows ! i)"
    let ?rows' = "?rows[i := (?rows ! i)\<lparr>ch_current_hash := h\<rparr>]"
    have pos: "map ch_chain_position ?rows' = map ch_chain_position ?rows"
      using a by (simp add: map_update list_update_same_conv)
    have s': "sorted (map ch_chain_position ?rows')" using assms(3) by (simp only: pos)
    have "issues_from ?rows' 1 =
        [\<lparr>position = ch_chain_position (?rows' ! Suc i), issue = ''Hash chain broken'',
          expected = ch_current_hash (?rows' ! (Suc i - 1)),
          actual = ch_previous_hash (?rows' ! Suc i)\<rparr>]"
    proof (rule issues_from_single)
      show "0 < Suc i" by simp
      show "Suc i < length ?rows'" using a by simp
      show "ch_previous_hash (?rows' ! Suc i) \<noteq> Some (ch_current_hash (?rows' ! (Suc i - 1)))"
        using a ok [of "Suc i"] by auto
      show "\<forall>j. 0 < j \<and> j < length ?rows' \<and> j \<noteq> Suc i \<longrightarrow>
           ch_previous_hash (?rows' ! j) = Some (ch_current_hash (?rows' ! (j - 1)))"
      proof (intro allI impI)
        fix j
        assume j: "0 < j \<and> j < length ?rows' \<and> j \<noteq> Suc i"
        then have "j - 1 \<noteq> i" by arith
        then have "ch_current_hash (?rows' ! (j - 1)) = ch_current_hash (?rows ! (j - 1))"
          by simp
        moreover have "ch_previous_hash (?rows' ! j) = ch_previous_hash (?rows ! j)"
          using j by (cases "j = i") simp_all
        ultimately show "ch_previous_hash (?rows' ! j) =
            Some (ch_current_hash (?rows' ! (j - 1)))"
          using ok [of j] j by simp
      qed
    qed
    then show "verifyProvenanceChain (d\<lparr>provenance_chain := ?rows'\<rparr>) False =
       Inr \<lparr>isValid = False, totalEvents = length ?rows,
            issues = [\<lparr>position = ch_chain_position (?rows ! Suc i),
                       issue = ''Hash chain broken'', expected = h,
                       actual = ch_previous_hash (?rows ! Suc i)\<rparr>]\<rparr>"
      using a by (simp add: verifyProvenanceChain_sorted [OF s'])
  }
  {
    fix i x
    assume a: "0 < i \<and> i < length ?rows \<and> x \<noteq> ch_previous_hash (?rows ! i)"
    let ?rows' = "?rows[i := (?rows ! i)\<lparr>ch_previous_hash := x\<rparr>]"
    have pos: "map ch_chain_position ?rows' = map ch_chain_position ?rows"
      using a by (simp add: map_update list_update_same_conv)
    have s': "sorted (map ch_chain_position ?rows')" using assms(3) by (simp only: pos)
    have "issues_from ?rows' 1 =
        [\<lparr>position = ch_chain_position (?rows' ! i), issue = ''Hash chain broken'',
          expected = ch_current_hash (?rows' ! (i - 1)),
          actual = ch_previous_hash (?rows' ! i)\<rparr>]"
    proof (rule issues_from_single)
      show "0 < i" using a by simp
      show "i < length ?rows'" using a by simp
      show "ch_previous_hash (?rows' ! i) \<noteq> Some (ch_current_hash (?rows' ! (i - 1)))"
        using a ok [of i] by auto
      show "\<forall>j. 0 < j \<and> j < length ?rows' \<and> j \<noteq> i \<longrightarrow>
           ch_previous_hash (?rows' ! j) = Some (ch_current_hash (?rows' ! (j - 1)))"
      proof (intro allI impI)
        fix j
        assume j: "0 < j \<and> j < length ?rows' \<and> j \<noteq> i"
        then have "ch_previous_hash (?rows' ! j) = ch_previous_hash (?rows ! j)"
          by simp
        moreover have "ch_current_hash (?rows' ! (j - 1)) = ch_current_hash (?rows ! (j - 1))"
          using j a by (cases "j - 1 = i") simp_all
        ultimately show "ch_previous_hash (?rows' ! j) =
            Some (ch_current_hash (?rows' ! (j - 1)))"
          using ok [of j] j by simp
      qed
    qed
    moreover from a have "?rows' ! (i - 1) = ?rows ! (i - 1)"
      by (intro nth_list_update_neq) arith
    ultimately show "verifyProvenanceChain (d\<lparr>provenance_chain := ?rows'\<rparr>) False =
       Inr \<lparr>isValid = False, totalEvents = length ?rows,
            issues = [\<lparr>position = ch_chain_position (?rows ! i),
                       issue = ''Hash chain broken'',
                       expected = ch_current_hash (?rows ! (i - 1)),
                       actual = x\<rparr>]\<rparr>"
      using a by (simp add: verifyProvenanceChain_sorted [OF s'])
  }
qed

theorem link_tampering_detected_witness:
  "verifyProvenanceChain
     \<lparr>events = [],
      provenance_chain =
        [\<lparr>ch_event_id = ''a'', ch_previous_hash = None, ch_current_hash = ''h1'',
          ch_chain_position = 1\<rparr>,
         \<lparr>ch_event_id = ''b'', ch_previous_hash = Some ''xx'', ch_current_hash = ''h2'',
          ch_chain_position = 2\<rparr>]\<rparr> False =
   Inr \<lparr>isValid = False, totalEvents = 2,
        issues = [\<lparr>position = 2, issue = ''Hash chain broken'', expected = ''h1'',
                   actual = Some ''xx''\<rparr>]\<rparr>"
proof -
  let ?d = "\<lparr>events = [],
      provenance_chain =
        [\<lparr>ch_event_id = ''a'', ch_previous_hash = None, ch_current_hash = ''h1'',
          ch_chain_position = 1\<rparr>,
         \<lparr>ch_event_id = ''b'', ch_previous_hash = Some ''h1'', ch_current_hash = ''h2'',
          ch_chain_position = 2\<rparr>]\<rparr>"
  let ?s = "\<lparr>isValid = True, totalEvents = 2, issues = []\<rparr>"
  have v: "verifyProvenanceChain ?d False = Inr ?s"
    by (simp add: verifyProvenanceChain_eq issues_from_def upt_rec)
  have ok: "isValid ?s" by simp
  have so: "sorted (map ch_chain_position (provenance_chain ?d))" by simp
  from link_tampering_detected [OF v ok so, of "[]"]
  have "\<forall>i x. 0 < i \<and> i < length (provenance_chain ?d) \<and>
           x \<noteq> ch_previous_hash (provenance_chain ?d ! i) \<longrightarrow>
       verifyProvenanceChain
         (?d\<lparr>provenance_chain := (provenance_chain ?d)
              [i := (provenance_chain ?d ! i)\<lparr>ch_previous_hash := x\<rparr>]\<rparr>) False =
       Inr \<lparr>isValid = False, totalEvents = length (provenance_chain ?d),
            issues = [\<lparr>position = ch_chain_position (provenance_chain ?d ! i),
                       issue = ''Hash chain broken'',
                       expected = ch_current_hash (provenance_chain ?d ! (i - 1)),
                       actual = x\<rparr>]\<rparr>"
    by blast
  from this [rule_format, of 1 "Some ''xx''"] show ?thesis
    by simp
qed

text \<open>
  Claim C2 as stated fails. Two records are created on the empty store; the chain is
  valid. The stored \<^verbatim>\<open>image_hash\<close> of the first event row is then changed from \<open>AAAA\<close> to
  \<open>CCCC\<close> and nothing else: \<^verbatim>\<open>verifyProvenanceChain\<close> still answers valid, with no issue.
\<close>

theorem event_tampering_counterexample:
  "let d = db (snd (create_all (\<lambda>text. text)
        (new_tracker \<lparr>events = [], provenance_chain = []\<rparr> \<lparr>initialized = False\<rparr>)
        [\<lparr>creation_env =
            \<lparr>first_attempt = \<lparr>uuid = ''u1'', now = ''2024-01-01T00:00:00.000Z'',
               rtc_iso = ''2024-01-01T00:00:00.000Z'', log_fault = False, clock = 100,
               read_fault = False, insert_fault = False\<rparr>,
             signer = \<lparr>hw_response = Inl SignError, sw_signature = Inr ''3045''\<rparr>,
             second_attempt = \<lparr>uuid = ''u2'', now = ''2024-01-01T00:00:00.010Z'',
               rtc_iso = ''2024-01-01T00:00:00.000Z'', log_fault = False, clock = 100,
               read_fault = False, insert_fault = False\<rparr>\<rparr>,
          creation_type = ''motion_detection'',
          creation_trigger = JObject [(''manual'', JBool True)],
          creation_image = \<lparr>base64Data = ''AAAA'', filepath = ''captures/1.jpg''\<rparr>\<rparr>,
         \<lparr>creation_env =
            \<lparr>first_attempt = \<lparr>uuid = ''u3'', now = ''2024-01-01T00:00:07.000Z'',
               rtc_iso = ''2024-01-01T00:00:07.000Z'', log_fault = False, clock = 107,
               read_fault = False, insert_fault = False\<rparr>,
             signer = \<lparr>hw_response = Inl SignError, sw_signature = Inr ''3046''\<rparr>,
             second_attempt = \<lparr>uuid = ''u4'', now = ''2024-01-01T00:00:07.010Z'',
               rtc_iso = ''2024-01-01T00:00:07.000Z'', log_fault = False, clock = 107,
               read_fault = False, insert_fault = False\<rparr>\<rparr>,
          creation_type = ''motion_detection'',
          creation_trigger = JObject [(''manual'', JBool True)],
          creation_image = \<lparr>base64Data = ''BBBB'', filepath = ''captures/2.jpg''\<rparr>\<rparr>]))
   in map ev_event_id (events d) = [''u1'', ''u3''] \<and>
      map ev_image_hash (events d) = [''AAAA'', ''BBBB''] \<and>
      map ch_chain_position (provenance_chain d) = [1, 2] \<and>
      verifyProvenanceChain d False = Inr \<lparr>isValid = True, totalEvents = 2, issues = []\<rparr> \<and>
      verifyProvenanceChain
        (d\<lparr>events := (events d)[0 := (events d ! 0)\<lparr>ev_image_hash := ''CCCC''\<rparr>]\<rparr>) False =
        Inr \<lparr>isValid = True, totalEvents = 2, issues = []\<rparr>"
  by (simp add: Let_def createProvenanceRecord_def calculateImageHash_def new_tracker_def
      signData_def softwareSign_def logEvent_def inserted_row_def addToProvenanceChain_def
      max_pos_def verifyProvenanceChain_eq issues_from_def calculateEventHash_def)

subsection \<open>Verification of one event\<close>


lemma left_join_nonempty: "\<exists>p rest. left_join chain e = (e, p) # rest"
  by (cases "filter (\<lambda>p. ch_event_id p = ev_event_id e) chain") (auto simp: left_join_def)

lemma filter_find_None:
  "find P xs = None \<Longrightarrow> filter P xs = []"
  by (induction xs) (auto split: if_splits)

lemma filter_find_Some:
  "find P xs = Some x \<Longrightarrow> \<exists>rest. filter P xs = x # rest"
  by (induction xs) (auto split: if_splits)

lemma getEventById_missing:
  "find (\<lambda>e. ev_event_id e = eventId') (events d) = None \<Longrightarrow>
   getEventById parse d False eventId' = Inr None"
  by (simp add: getEventById_def filter_find_None)

lemma getEventById_found:
  assumes "find (\<lambda>e. ev_event_id e = eventId') (events d) = Some e"
  shows "\<exists>p. getEventById parse d False eventId' =
           (case parse_row parse (e, p) of Inl err \<Rightarrow> Inl err | Inr v \<Rightarrow> Inr (Some v))"
proof -
  from filter_find_Some [OF assms] obtain rest
    where f: "filter (\<lambda>e. ev_event_id e = eventId') (events d) = e # rest" by blast
  from left_join_nonempty obtain p rest'
    where j: "left_join (provenance_chain d) e = (e, p) # rest'" by blast
  show ?thesis
    by (rule exI [of _ p]) (simp add: getEventById_def f j)
qed

lemma find_Some_id:
  "find (\<lambda>e. ev_event_id e = eventId') es = Some e \<Longrightarrow> ev_event_id e = eventId'"
  by (induction es) (auto split: if_splits)

text \<open>
  What \<^verbatim>\<open>verifyEvent\<close> returns. When the store answers the read: an identifier that no
  event row carries gives \<^verbatim>\<open>{valid: false, reason: 'Event not found'}\<close>; an event row
  without a signature, whose two JSON columns parse, gives \<^verbatim>\<open>{valid: false, reason: 'Event not signed'}\<close> with
  the event, as a returned value. When the store rejects the read, the catch clause
  returns \<^verbatim>\<open>{valid: false, reason: 'Verification failed'}\<close>.
\<close>

theorem verifyEvent_missing_or_unsigned:
  "(find (\<lambda>e. ev_event_id e = eventId') (events (db t)) = None \<longrightarrow>
      verifyEvent parse t False random eventId' = Inr EventNotFound) \<and>
   (\<forall>e. find (\<lambda>e. ev_event_id e = eventId') (events (db t)) = Some e \<and>
        ev_signature e = None \<and>
        parse (or_empty_object (ev_trigger_data e)) \<noteq> None \<and>
        parse (or_empty_object (ev_signature_info e)) \<noteq> None \<longrightarrow>
      (\<exists>event. verifyEvent parse t False random eventId' = Inr (EventNotSigned event) \<and>
         row_event_id event = eventId' \<and>
         valid (EventNotSigned event) = False \<and>
         reason (EventNotSigned event) = Some ''Event not signed'')) \<and>
   verifyEvent parse t True random eventId' = Inr (VerificationFailed SqliteError)"
proof (intro conjI impI allI)
  assume "find (\<lambda>e. ev_event_id e = eventId') (events (db t)) = None"
  then show "verifyEvent parse t False random eventId' = Inr EventNotFound"
    by (simp add: verifyEvent_def getEventById_missing)
next
  fix e
  assume a: "find (\<lambda>e. ev_event_id e = eventId') (events (db t)) = Some e \<and>
        ev_signature e = None \<and>
        parse (or_empty_object (ev_trigger_data e)) \<noteq> None \<and>
        parse (or_empty_object (ev_signature_info e)) \<noteq> None"
  then obtain p where g: "getEventById parse (db t) False eventId' =
      (case parse_row parse (e, p) of Inl err \<Rightarrow> Inl err | Inr v \<Rightarrow> Inr (Some v))"
    using getEventById_found by blast
  from a obtain trigger info where
    tr: "parse (or_empty_object (ev_trigger_data e)) = Some trigger" and
    si: "parse (or_empty_object (ev_signature_info e)) = Some info"
    by blast
  from a have id: "ev_event_id e = eventId'" by (blast dest: find_Some_id)
  from a have sig: "ev_signature e = None" by simp
  obtain v where v: "parse_row parse (e, p) = Inr v"
    by (simp add: parse_row_def tr si)
  then have vs: "row_signature v = None" and vi: "row_event_id v = eventId'"
    using sig id by (auto simp: parse_row_def tr si)
  have "verifyEvent parse t False random eventId' = Inr (EventNotSigned v)"
    by (simp add: verifyEvent_def g v vs no_signature_def)
  then show "\<exists>event. verifyEvent parse t False random eventId' = Inr (EventNotSigned event) \<and>
         row_event_id event = eventId' \<and>
         valid (EventNotSigned event) = False \<and>
         reason (EventNotSigned event) = Some ''Event not signed''"
    using vi by (intro exI [of _ v]) simp
next
  show "verifyEvent parse t True random eventId' = Inr (VerificationFailed SqliteError)"
    by (simp add: verifyEvent_def getEventById_def)
qed

theorem verifyEvent_missing_or_unsigned_witness:
  "verifyEvent (\<lambda>text. if text = ''{}'' then Some (JObject []) else None)
     (new_tracker
        \<lparr>events =
           [\<lparr>ev_event_id = ''a'', ev_timestamp = ''2024-01-01T00:00:00.000Z'',
             ev_rtc_timestamp = ''2024-01-01T00:00:00.000Z'',
             ev_event_type = ''motion_detection'', ev_trigger_data = Some ''{}'',
             ev_image_path = ''captures/1.jpg'', ev_image_hash = ''11'',
             ev_signature = None, ev_signature_info = None,
             ev_verification_status = 0, ev_created_at = 100\<rparr>],
         provenance_chain = []\<rparr>
        \<lparr>initialized = False\<rparr>) False (1 / 2) ''b'' = Inr EventNotFound \<and>
   (\<exists>event.
      verifyEvent (\<lambda>text. if text = ''{}'' then Some (JObject []) else None)
        (new_tracker
           \<lparr>events =
              [\<lparr>ev_event_id = ''a'', ev_timestamp = ''2024-01-01T00:00:00.000Z'',
                ev_rtc_timestamp = ''2024-01-01T00:00:00.000Z'',
                ev_event_type = ''motion_detection'', ev_trigger_data = Some ''{}'',
                ev_image_path = ''captures/1.jpg'', ev_image_hash = ''11'',
                ev_signature = None, ev_signature_info = None,
                ev_verification_status = 0, ev_created_at = 100\<rparr>],
            provenance_chain = []\<rparr>
           \<lparr>initialized = False\<rparr>) False (1 / 2) ''a'' = Inr (EventNotSigned event) \<and>
      row_event_id event = ''a'')"
proof -
  let ?parse = "\<lambda>text. if text = ''{}'' then Some (JObject []) else None"
  let ?e = "\<lparr>ev_event_id = ''a'', ev_timestamp = ''2024-01-01T00:00:00.000Z'',
             ev_rtc_timestamp = ''2024-01-01T00:00:00.000Z'',
             ev_event_type = ''motion_detection'', ev_trigger_data = Some ''{}'',
             ev_image_path = ''captures/1.jpg'', ev_image_hash = ''11'',
             ev_signature = None, ev_signature_info = None,
             ev_verification_status = 0, ev_created_at = 100\<rparr>"
  let ?t = "new_tracker \<lparr>events = [?e], provenance_chain = []\<rparr> \<lparr>initialized = False\<rparr>"
  have missing: "find (\<lambda>e. ev_event_id e = ''b'') (events (db ?t)) = None"
    by (simp add: new_tracker_def)
  have unsigned: "find (\<lambda>e. ev_event_id e = ''a'') (events (db ?t)) = Some ?e \<and>
      ev_signature ?e = None \<and>
      ?parse (or_empty_object (ev_trigger_data ?e)) \<noteq> None \<and>
      ?parse (or_empty_object (ev_signature_info ?e)) \<noteq> None"
    by (simp add: new_tracker_def or_empty_object_def)
  from verifyEvent_missing_or_unsigned [where eventId' = "''b''" and t = ?t
      and parse = ?parse and random = "1 / 2"] missing
  have 1: "verifyEvent ?parse ?t False (1 / 2) ''b'' = Inr EventNotFound"
    by blast
  from verifyEvent_missing_or_unsigned [where eventId' = "''a''" and t = ?t
      and parse = ?parse and random = "1 / 2"] unsigned
  have 2: "\<exists>event. verifyEvent ?parse ?t False (1 / 2) ''a'' = Inr (EventNotSigned event) \<and>
      row_event_id event = ''a''"
    by blast
  from 1 2 show ?thesis by blast
qed

text \<open>
  For a row that is found, \<^verbatim>\<open>verifyEvent\<close> lets a SyntaxError escape exactly when one of
  the row's two JSON columns does not parse; where all rows parse it returns a value,
  whatever the store does with the read.
\<close>

lemma parse_row_error:
  "parse_row parse (e, p) = Inl err \<Longrightarrow>
   err = SyntaxError \<and>
   (parse (or_empty_object (ev_trigger_data e)) = None \<or>
    parse (or_empty_object (ev_signature_info e)) = None)"
  by (auto simp: parse_row_def split: option.splits)

lemma find_Some_set: "find P xs = Some x \<Longrightarrow> x \<in> set xs"
  by (induction xs) (auto split: if_splits)

lemma verifyEvent_escapes_iff:
  assumes "find (\<lambda>e. ev_event_id e = eventId') (events (db t)) = Some e"
  shows "verifyEvent parse t False random eventId' = Inl SyntaxError \<longleftrightarrow>
         parse (or_empty_object (ev_trigger_data e)) = None \<or>
         parse (or_empty_object (ev_signature_info e)) = None"
proof -
  from getEventById_found [OF assms] obtain p where
    g: "getEventById parse (db t) False eventId' =
      (case parse_row parse (e, p) of Inl err \<Rightarrow> Inl err | Inr v \<Rightarrow> Inr (Some v))"
    by blast
  show ?thesis
  proof (cases "parse_row parse (e, p)")
    case (Inl err)
    from parse_row_error [OF Inl] Inl show ?thesis
      by (simp add: verifyEvent_def g)
  next
    case (Inr v)
    then have ok: "parse (or_empty_object (ev_trigger_data e)) \<noteq> None \<and>
        parse (or_empty_object (ev_signature_info e)) \<noteq> None"
      by (auto simp: parse_row_def split: option.splits)
    have "verifyEvent parse t False random eventId' \<noteq> Inl SyntaxError"
      by (simp add: verifyEvent_def g Inr Let_def split: sum.splits)
    with ok show ?thesis by simp
  qed
qed

lemma verifyEvent_returns:
  assumes "columns_parse parse (db t)"
  shows "\<exists>res. verifyEvent parse t fault random eventId' = Inr res"
proof (cases fault)
  case True
  then show ?thesis by (simp add: verifyEvent_def getEventById_def)
next
  case False
  show ?thesis
  proof (cases "find (\<lambda>e. ev_event_id e = eventId') (events (db t))")
    case None
    with False show ?thesis by (simp add: verifyEvent_def getEventById_missing)
  next
    case (Some e)
    from find_Some_set [OF Some] assms have
      "\<not> (parse (or_empty_object (ev_trigger_data e)) = None \<or>
          parse (or_empty_object (ev_signature_info e)) = None)"
      by (auto simp: columns_parse_def)
    with verifyEvent_escapes_iff [OF Some, of parse random]
    have ne: "verifyEvent parse t False random eventId' \<noteq> Inl SyntaxError" by simp
    have "\<And>x. verifyEvent parse t False random eventId' = Inl x \<Longrightarrow> x = SyntaxError"
      by (auto simp: verifyEvent_def Let_def split: sum.splits option.splits if_splits)
    with ne False show ?thesis
      by (cases "verifyEvent parse t False random eventId'") auto
  qed
qed

text \<open>
  Claim C6 does not hold of the code. The event row \<open>a\<close> has no signature; its
  \<^verbatim>\<open>trigger_data\<close> was cut down to the text \<open>{\<close>. \<^verbatim>\<open>getEventById\<close> calls \<^verbatim>\<open>JSON.parse\<close> inside
  the driver's callback, where the SyntaxError neither rejects the promise nor reaches the
  catch clause of \<^verbatim>\<open>verifyEvent\<close>: no \<^verbatim>\<open>{valid: false, reason: 'Event not signed'}\<close> is
  returned.
\<close>

theorem verifyEvent_unparsable_row_escapes:
  "verifyEvent
     (\<lambda>text. if text = JSON_stringify (JObject [(''signed'', JBool False),
                      (''reason'', JString ''Crypto device unavailable'')])
               then Some (JObject [(''signed'', JBool False),
                      (''reason'', JString ''Crypto device unavailable'')])
             else None)
     (new_tracker
        \<lparr>events =
           [\<lparr>ev_event_id = ''a'', ev_timestamp = ''2024-01-01T00:00:00.000Z'',
             ev_rtc_timestamp = ''2024-01-01T00:00:00.000Z'',
             ev_event_type = ''motion_detection'', ev_trigger_data = Some ''{'',
             ev_image_path = ''captures/1.jpg'', ev_image_hash = ''11'',
             ev_signature = None,
             ev_signature_info = Some (JSON_stringify (JObject [(''signed'', JBool False),
                      (''reason'', JString ''Crypto device unavailable'')])),
             ev_verification_status = 0, ev_created_at = 100\<rparr>],
         provenance_chain =
           [\<lparr>ch_event_id = ''a'', ch_previous_hash = None, ch_current_hash = ''aa'',
             ch_chain_position = 1\<rparr>]\<rparr>
        \<lparr>initialized = False\<rparr>) False (1 / 2) ''a'' = Inl SyntaxError"
  by (simp add: verifyEvent_def getEventById_def new_tracker_def left_join_def parse_row_def
      or_empty_object_def quote_string_def quote_char_def)

subsection \<open>What one creation does to the tracker\<close>

lemma logEvent_cases:
  "logEvent d f c r = Inr d1 \<Longrightarrow>
   \<not> f \<and> eventId r \<notin> set (map ev_event_id (events d)) \<and>
   d1 = d\<lparr>events := events d @ [inserted_row c r]\<rparr>"
  by (auto simp: logEvent_def split: if_splits)

lemma addToProvenanceChain_cases:
  "addToProvenanceChain d rfault ifault i h c = Inr (p, d2) \<Longrightarrow>
   \<not> rfault \<and> \<not> ifault \<and> p = next_position d \<and>
   d2 = d\<lparr>provenance_chain := provenance_chain d @
          [\<lparr>ch_event_id = i, ch_previous_hash = h, ch_current_hash = c,
            ch_chain_position = next_position d\<rparr>]\<rparr>"
  by (auto simp: addToProvenanceChain_def next_position_def Let_def split: if_splits)

lemma next_position_events [simp]:
  "next_position (d\<lparr>events := es\<rparr>) = next_position d"
  by (simp add: next_position_def)

lemma createUnsignedRecord_effect:
  assumes "createUnsignedRecord H t env et td img = (r, t')"
  shows "(isl r \<and> t' = t) \<or> (isl r \<and> orphan_written (uuid env) t t') \<or>
         (\<exists>rec row link. r = Inr rec \<and> link_written H td row link t t' \<and>
            signed rec = False \<and> currentHash rec = ch_current_hash link \<and>
            eventId (stored rec) = ev_event_id row \<and> ev_event_id row = uuid env \<and>
            signature (stored rec) = None \<and> ev_signature row = None \<and>
            signatureInfo (stored rec) = JObject [(''signed'', JBool False),
                (''reason'', JString ''Crypto device unavailable'')] \<and>
            ev_signature_info row = Some (JSON_stringify (signatureInfo (stored rec))))"
proof -
  define rec0 where "rec0 =
    \<lparr>eventId = uuid env, timestamp = now env, rtcTimestamp = rtc_iso env,
     eventType = et, triggerData = td, imagePath = filepath img,
     imageHash = calculateImageHash H img, signature = None,
     signatureInfo = JObject [(''signed'', JBool False),
                              (''reason'', JString ''Crypto device unavailable'')],
     verificationStatus = False\<rparr>"
  define h where "h = calculateEventHash H
    (eventData (uuid env) (now env) (rtc_iso env) et td (calculateImageHash H img) (lastHash t))
    None"
  have unfold: "createUnsignedRecord H t env et td img =
    (case logEvent (db t) (log_fault env) (clock env) rec0 of
       Inl e \<Rightarrow> (Inl e, t)
     | Inr d1 \<Rightarrow>
        (case addToProvenanceChain d1 (read_fault env) (insert_fault env)
                (uuid env) (lastHash t) h of
           Inl e \<Rightarrow> (Inl e, t\<lparr>db := d1\<rparr>)
         | Inr (position', d2) \<Rightarrow>
             (Inr \<lparr>currentHash = h, signed = False, stored = rec0\<rparr>,
              t\<lparr>db := d2, lastHash := Some h\<rparr>)))"
    unfolding createUnsignedRecord_def Let_def rec0_def h_def by (rule refl)
  show ?thesis
  proof (cases "logEvent (db t) (log_fault env) (clock env) rec0")
    case (Inl e)
    with assms unfold show ?thesis by auto
  next
    case (Inr d1)
    from logEvent_cases [OF Inr]
    have fresh: "uuid env \<notin> set (map ev_event_id (events (db t)))"
      and d1: "d1 = (db t)\<lparr>events := events (db t) @ [inserted_row (clock env) rec0]\<rparr>"
      by (simp_all add: rec0_def)
    have row_id: "ev_event_id (inserted_row (clock env) rec0) = uuid env"
      by (simp add: inserted_row_def rec0_def)
    show ?thesis
    proof (cases "addToProvenanceChain d1 (read_fault env) (insert_fault env)
                    (uuid env) (lastHash t) h")
      case (Inl e)
      with assms unfold Inr have "isl r" and "t' = t\<lparr>db := d1\<rparr>" by auto
      moreover have "orphan_written (uuid env) t (t\<lparr>db := d1\<rparr>)"
        unfolding orphan_written_def d1
        using fresh by (intro exI [of _ "inserted_row (clock env) rec0"]) (simp add: row_id)
      ultimately show ?thesis by simp
    next
      case (Inr pd)
      obtain p d2 where pd: "pd = (p, d2)" by (cases pd)
      from addToProvenanceChain_cases [OF Inr [unfolded pd]]
      have d2: "d2 = d1\<lparr>provenance_chain := provenance_chain d1 @
          [\<lparr>ch_event_id = uuid env, ch_previous_hash = lastHash t, ch_current_hash = h,
            ch_chain_position = next_position d1\<rparr>]\<rparr>"
        by simp
      from assms unfold \<open>logEvent (db t) (log_fault env) (clock env) rec0 = Inr d1\<close> Inr pd
      have r: "r = Inr \<lparr>currentHash = h, signed = False, stored = rec0\<rparr>"
        and t': "t' = t\<lparr>db := d2, lastHash := Some h\<rparr>"
        by auto
      let ?row = "inserted_row (clock env) rec0"
      let ?link = "\<lparr>ch_event_id = uuid env, ch_previous_hash = lastHash t,
                    ch_current_hash = h, ch_chain_position = next_position (db t)\<rparr>"
      have "link_written H td ?row ?link t t'"
        unfolding link_written_def t' d2 d1
        using fresh by (simp add: inserted_row_def rec0_def h_def)
      then have "\<exists>rec row link. r = Inr rec \<and> link_written H td row link t t' \<and>
            signed rec = False \<and> currentHash rec = ch_current_hash link \<and>
            eventId (stored rec) = ev_event_id row \<and> ev_event_id row = uuid env \<and>
            signature (stored rec) = None \<and> ev_signature row = None \<and>
            signatureInfo (stored rec) = JObject [(''signed'', JBool False),
                (''reason'', JString ''Crypto device unavailable'')] \<and>
            ev_signature_info row = Some (JSON_stringify (signatureInfo (stored rec)))"
        by (intro exI [of _ "\<lparr>currentHash = h, signed = False, stored = rec0\<rparr>"]
              exI [of _ ?row] exI [of _ ?link])
           (simp add: r inserted_row_def rec0_def)
      then show ?thesis by blast
    qed
  qed
qed


lemma createUnsignedRecord_attempt:
  "createUnsignedRecord H t env et td img = (r, t') \<Longrightarrow> attempt_effect H td (uuid env) t r t'"
  using createUnsignedRecord_effect [of H t env et td img r t']
  unfolding attempt_effect_def by fastforce

lemma createProvenanceRecord_effect:
  assumes "createProvenanceRecord H t env et td img = (r, t')"
  shows "\<exists>u t1. (t1 = t \<or> orphan_written (uuid (first_attempt env)) t t1) \<and>
           (u = uuid (first_attempt env) \<or> u = uuid (second_attempt env)) \<and>
           attempt_effect H td u t1 r t'"
proof -
  define u1 where "u1 = uuid (first_attempt env)"
  define data where "data = eventData u1 (now (first_attempt env)) (rtc_iso (first_attempt env))
    et td (calculateImageHash H img) (lastHash t)"
  show ?thesis
  proof (cases "signData (crypto t) (signer env) (JSON_stringify (JObject data))")
    case (Inl e)
    with assms have "createUnsignedRecord H t (second_attempt env) et td img = (r, t')"
      by (simp add: createProvenanceRecord_def Let_def data_def u1_def)
    from createUnsignedRecord_attempt [OF this] show ?thesis by blast
  next
    case (Inr info)
    define rec0 where "rec0 =
      \<lparr>eventId = u1, timestamp = now (first_attempt env),
       rtcTimestamp = rtc_iso (first_attempt env), eventType = et, triggerData = td,
       imagePath = filepath img, imageHash = calculateImageHash H img,
       signature = Some (sr_signature info), signatureInfo = sign_result_json info,
       verificationStatus = True\<rparr>"
    define h where "h = calculateEventHash H data (Some (sr_signature info))"
    have unfold: "createProvenanceRecord H t env et td img =
      (case logEvent (db t) (log_fault (first_attempt env)) (clock (first_attempt env)) rec0 of
         Inl e \<Rightarrow> createUnsignedRecord H t (second_attempt env) et td img
       | Inr d1 \<Rightarrow>
          (case addToProvenanceChain d1 (read_fault (first_attempt env))
                  (insert_fault (first_attempt env)) u1 (lastHash t) h of
             Inl e \<Rightarrow> createUnsignedRecord H (t\<lparr>db := d1\<rparr>) (second_attempt env) et td img
           | Inr (position', d2) \<Rightarrow>
               (Inr \<lparr>currentHash = h, signed = True, stored = rec0\<rparr>,
                t\<lparr>db := d2, lastHash := Some h\<rparr>)))"
      using Inr unfolding createProvenanceRecord_def Let_def rec0_def h_def data_def u1_def
      by simp
    show ?thesis
    proof (cases "logEvent (db t) (log_fault (first_attempt env)) (clock (first_attempt env))
                    rec0")
      case (Inl e)
      with assms unfold
      have "createUnsignedRecord H t (second_attempt env) et td img = (r, t')" by simp
      from createUnsignedRecord_attempt [OF this] show ?thesis by blast
    next
      case (Inr d1)
      note logged = this
      from logEvent_cases [OF Inr]
      have fresh: "u1 \<notin> set (map ev_event_id (events (db t)))"
        and d1: "d1 = (db t)\<lparr>events := events (db t) @
                   [inserted_row (clock (first_attempt env)) rec0]\<rparr>"
        by (simp_all add: rec0_def)
      have row_id: "ev_event_id (inserted_row (clock (first_attempt env)) rec0) = u1"
        by (simp add: inserted_row_def rec0_def)
      show ?thesis
      proof (cases "addToProvenanceChain d1 (read_fault (first_attempt env))
                      (insert_fault (first_attempt env)) u1 (lastHash t) h")
        case (Inl e)
        with assms unfold logged
        have "createUnsignedRecord H (t\<lparr>db := d1\<rparr>) (second_attempt env) et td img = (r, t')"
          by simp
        from createUnsignedRecord_attempt [OF this]
        have "attempt_effect H td (uuid (second_attempt env)) (t\<lparr>db := d1\<rparr>) r t'" .
        moreover have "orphan_written u1 t (t\<lparr>db := d1\<rparr>)"
          unfolding orphan_written_def d1
          using fresh
          by (intro exI [of _ "inserted_row (clock (first_attempt env)) rec0"])
             (simp add: row_id)
        ultimately show ?thesis unfolding u1_def by blast
      next
        case (Inr pd)
        obtain p d2 where pd: "pd = (p, d2)" by (cases pd)
        from addToProvenanceChain_cases [OF Inr [unfolded pd]]
        have d2: "d2 = d1\<lparr>provenance_chain := provenance_chain d1 @
            [\<lparr>ch_event_id = u1, ch_previous_hash = lastHash t, ch_current_hash = h,
              ch_chain_position = next_position d1\<rparr>]\<rparr>"
          by simp
        from assms unfold logged Inr pd
        have r: "r = Inr \<lparr>currentHash = h, signed = True, stored = rec0\<rparr>"
          and t': "t' = t\<lparr>db := d2, lastHash := Some h\<rparr>"
          by auto
        let ?row = "inserted_row (clock (first_attempt env)) rec0"
        let ?link = "\<lparr>ch_event_id = u1, ch_previous_hash = lastHash t,
                      ch_current_hash = h, ch_chain_position = next_position (db t)\<rparr>"
        have "link_written H td ?row ?link t t'"
          unfolding link_written_def t' d2 d1
          using fresh by (simp add: inserted_row_def rec0_def h_def data_def)
        with row_id have "attempt_effect H td u1 t r t'"
          unfolding attempt_effect_def r by auto
        then show ?thesis unfolding u1_def by blast
      qed
    qed
  qed
qed

subsection \<open>The chain that a sequence of creations builds\<close>

lemma linked_from_snoc:
  "linked_from h (rs @ [r]) =
     (linked_from h rs \<and> ch_previous_hash r = (if rs = [] then h else tail_hash rs))"
  by (induction rs arbitrary: h) (auto simp: tail_hash_def)

lemma linked_from_nth:
  "linked_from h rows \<Longrightarrow> i < length rows \<Longrightarrow>
   ch_previous_hash (rows ! i) = (if i = 0 then h else Some (ch_current_hash (rows ! (i - 1))))"
proof (induction rows arbitrary: h i)
  case Nil
  then show ?case by simp
next
  case (Cons r rs)
  show ?case
  proof (cases i)
    case 0
    with Cons.prems show ?thesis by simp
  next
    case (Suc j)
    with Cons.prems have "ch_previous_hash (rs ! j) =
        (if j = 0 then Some (ch_current_hash r) else Some (ch_current_hash (rs ! (j - 1))))"
      using Cons.IH [of "Some (ch_current_hash r)" j] by simp
    with Suc show ?thesis by (cases j) simp_all
  qed
qed

lemma max_pos_snoc:
  "max_pos (rs @ [r]) =
     Some (case max_pos rs of None \<Rightarrow> ch_chain_position r
           | Some m \<Rightarrow> max (ch_chain_position r) m)"
  by (cases rs) (simp_all add: max_pos_def)

lemma max_pos_contiguous:
  "map ch_chain_position rows = map int [1..<Suc (length rows)] \<Longrightarrow>
   (case max_pos rows of None \<Rightarrow> 0 | Some m \<Rightarrow> m) = int (length rows)"
proof (induction rows rule: rev_induct)
  case Nil
  then show ?case by (simp add: max_pos_def)
next
  case (snoc r rs)
  from snoc.prems have p: "map ch_chain_position rs = map int [1..<Suc (length rs)]"
    and q: "ch_chain_position r = int (Suc (length rs))"
    by simp_all
  from snoc.IH [OF p] q show ?case
    by (simp add: max_pos_snoc split: option.splits)
qed

lemma chain_inv_orphan: "chain_inv t \<Longrightarrow> orphan_written u t t' \<Longrightarrow> chain_inv t'"
  by (auto simp: chain_inv_def orphan_written_def)

lemma chain_inv_link:
  assumes "chain_inv t" and "link_written H td row link t t'"
  shows "chain_inv t'"
proof -
  from assms(1) have pos: "next_position (db t) = int (length (provenance_chain (db t))) + 1"
    by (simp add: chain_inv_def next_position_def max_pos_contiguous)
  from assms(2) have t': "t' = t\<lparr>db := \<lparr>events = events (db t) @ [row],
        provenance_chain = provenance_chain (db t) @ [link]\<rparr>,
      lastHash := Some (ch_current_hash link)\<rparr>"
    and prev: "ch_previous_hash link = lastHash t"
    and lp: "ch_chain_position link = next_position (db t)"
    by (simp_all add: link_written_def)
  show ?thesis
    using assms(1) unfolding t' chain_inv_def
    by (simp add: linked_from_snoc prev lp pos tail_hash_def)
qed

lemma chain_inv_attempt:
  "chain_inv t \<Longrightarrow> attempt_effect H td u t r t' \<Longrightarrow> chain_inv t'"
  unfolding attempt_effect_def by (blast intro: chain_inv_orphan chain_inv_link)

lemma createProvenanceRecord_chain_inv:
  assumes "chain_inv t" and "createProvenanceRecord H t e et td img = (r, t')"
  shows "chain_inv t'"
  using createProvenanceRecord_effect [OF assms(2)] assms(1)
  by (blast intro: chain_inv_orphan chain_inv_attempt)

lemma create_all_chain_inv:
  "chain_inv t \<Longrightarrow> create_all H t cs = (rs, t') \<Longrightarrow> chain_inv t'"
proof (induction cs arbitrary: t rs)
  case Nil
  then show ?case by simp
next
  case (Cons c cs)
  obtain r t1 where s: "createProvenanceRecord H t (creation_env c) (creation_type c) (creation_trigger c)
      (creation_image c) = (r, t1)" by (cases "createProvenanceRecord H t (creation_env c) (creation_type c)
      (creation_trigger c) (creation_image c)")
  from Cons.prems(2) s obtain rs1 where a: "create_all H t1 cs = (rs1, t')"
    by (auto split: prod.splits)
  from Cons.IH [OF createProvenanceRecord_chain_inv [OF Cons.prems(1) s] a] show ?case .
qed

lemma logEvent_ok:
  "\<not> f \<Longrightarrow> eventId r \<notin> set (map ev_event_id (events d)) \<Longrightarrow>
   logEvent d f c r = Inr (d\<lparr>events := events d @ [inserted_row c r]\<rparr>)"
  by (simp add: logEvent_def)

lemma addToProvenanceChain_ok:
  "addToProvenanceChain d False False i h c =
     Inr (next_position d,
          d\<lparr>provenance_chain := provenance_chain d @
            [\<lparr>ch_event_id = i, ch_previous_hash = h, ch_current_hash = c,
              ch_chain_position = next_position d\<rparr>]\<rparr>)"
  by (simp add: addToProvenanceChain_def next_position_def Let_def)

lemma createUnsignedRecord_succeeds:
  assumes "no_fault a" and "uuid a \<notin> set (map ev_event_id (events (db t)))"
  shows "\<not> isl (fst (createUnsignedRecord H t a et td img))"
  using assms
  by (simp add: createUnsignedRecord_def Let_def no_fault_def logEvent_ok
      addToProvenanceChain_ok)

lemma createProvenanceRecord_succeeds:
  assumes "no_fault (first_attempt e)" and "no_fault (second_attempt e)"
    and "uuid (first_attempt e) \<notin> set (map ev_event_id (events (db t)))"
    and "uuid (second_attempt e) \<notin> set (map ev_event_id (events (db t)))"
  shows "\<not> isl (fst (createProvenanceRecord H t e et td img))"
proof (cases "signData (crypto t) (signer e)
    (JSON_stringify (JObject (eventData (uuid (first_attempt e)) (now (first_attempt e))
       (rtc_iso (first_attempt e)) et td (calculateImageHash H img) (lastHash t))))")
  case (Inl x)
  then show ?thesis
    using createUnsignedRecord_succeeds [OF assms(2) assms(4)]
    by (simp add: createProvenanceRecord_def Let_def)
next
  case (Inr info)
  then show ?thesis
    using assms(1) assms(3)
    by (simp add: createProvenanceRecord_def Let_def no_fault_def logEvent_ok
        addToProvenanceChain_ok)
qed

lemma orphan_written_facts:
  "orphan_written u t t' \<Longrightarrow>
   provenance_chain (db t') = provenance_chain (db t) \<and>
   ev_event_id ` set (events (db t')) = insert u (ev_event_id ` set (events (db t)))"
  by (auto simp: orphan_written_def)

lemma link_written_facts:
  "link_written H td row link t t' \<Longrightarrow>
   provenance_chain (db t') = provenance_chain (db t) @ [link] \<and>
   ev_event_id ` set (events (db t')) =
     insert (ev_event_id row) (ev_event_id ` set (events (db t)))"
  by (auto simp: link_written_def)

lemma attempt_effect_facts:
  assumes "attempt_effect H td u t r t'"
  shows "set (map ev_event_id (events (db t'))) \<subseteq> insert u (set (map ev_event_id (events (db t))))"
    and "length (provenance_chain (db t')) =
           (if isl r then length (provenance_chain (db t))
            else Suc (length (provenance_chain (db t))))"
  using assms unfolding attempt_effect_def
  by (auto dest!: orphan_written_facts link_written_facts)

lemma createProvenanceRecord_facts:
  assumes "createProvenanceRecord H t e et td img = (r, t')"
  shows "set (map ev_event_id (events (db t'))) \<subseteq>
           set (map ev_event_id (events (db t))) \<union>
           {uuid (first_attempt e), uuid (second_attempt e)}"
    and "length (provenance_chain (db t')) =
           (if isl r then length (provenance_chain (db t))
            else Suc (length (provenance_chain (db t))))"
proof -
  from createProvenanceRecord_effect [OF assms] obtain u t1 where
    t1: "t1 = t \<or> orphan_written (uuid (first_attempt e)) t t1" and
    u: "u = uuid (first_attempt e) \<or> u = uuid (second_attempt e)" and
    a: "attempt_effect H td u t1 r t'"
    by blast
  from t1 have c1: "provenance_chain (db t1) = provenance_chain (db t)"
    and e1: "set (map ev_event_id (events (db t1))) \<subseteq>
             insert (uuid (first_attempt e)) (set (map ev_event_id (events (db t))))"
    by (auto dest!: orphan_written_facts)
  from attempt_effect_facts(1) [OF a] e1 u
  show "set (map ev_event_id (events (db t'))) \<subseteq>
           set (map ev_event_id (events (db t))) \<union>
           {uuid (first_attempt e), uuid (second_attempt e)}"
    by auto
  from attempt_effect_facts(2) [OF a] c1
  show "length (provenance_chain (db t')) =
           (if isl r then length (provenance_chain (db t))
            else Suc (length (provenance_chain (db t))))"
    by simp
qed

lemma create_all_count:
  assumes "\<forall>c\<in>set cs. no_fault (first_attempt (creation_env c)) \<and> no_fault (second_attempt (creation_env c))"
    and "distinct (uuids cs)"
    and "set (uuids cs) \<inter> set (map ev_event_id (events (db t))) = {}"
    and "create_all H t cs = (rs, t')"
  shows "length (provenance_chain (db t')) = length (provenance_chain (db t)) + length cs \<and>
         length rs = length cs \<and> (\<forall>r\<in>set rs. \<not> isl r)"
  using assms
proof (induction cs arbitrary: t rs)
  case Nil
  then show ?case by simp
next
  case (Cons c cs)
  obtain r t1 where s: "createProvenanceRecord H t (creation_env c) (creation_type c) (creation_trigger c)
      (creation_image c) = (r, t1)" by (cases "createProvenanceRecord H t (creation_env c) (creation_type c)
      (creation_trigger c) (creation_image c)")
  from Cons.prems(4) s obtain rs1 where a: "create_all H t1 cs = (rs1, t')"
    and rs: "rs = r # rs1"
    by (auto split: prod.splits)
  from Cons.prems(3) have f1: "uuid (first_attempt (creation_env c)) \<notin> set (map ev_event_id (events (db t)))"
    and f2: "uuid (second_attempt (creation_env c)) \<notin> set (map ev_event_id (events (db t)))"
    by (auto simp: uuids_def)
  from Cons.prems(1) have nf: "no_fault (first_attempt (creation_env c))" "no_fault (second_attempt (creation_env c))"
    by simp_all
  from createProvenanceRecord_succeeds [OF nf f1 f2, of H "creation_type c" "creation_trigger c"
      "creation_image c"] s
  have ok: "\<not> isl r" by simp
  from createProvenanceRecord_facts [OF s] ok
  have ids: "set (map ev_event_id (events (db t1))) \<subseteq>
           set (map ev_event_id (events (db t))) \<union>
           {uuid (first_attempt (creation_env c)), uuid (second_attempt (creation_env c))}"
    and len: "length (provenance_chain (db t1)) = Suc (length (provenance_chain (db t)))"
    by simp_all
  from Cons.prems(2) have d: "distinct (uuids cs)"
    and new: "uuid (first_attempt (creation_env c)) \<notin> set (uuids cs)"
             "uuid (second_attempt (creation_env c)) \<notin> set (uuids cs)"
    by (auto simp: uuids_def)
  from Cons.prems(3) have old: "set (uuids cs) \<inter> set (map ev_event_id (events (db t))) = {}"
    by (auto simp: uuids_def)
  from ids new old have disj: "set (uuids cs) \<inter> set (map ev_event_id (events (db t1))) = {}"
    by blast
  from Cons.prems(1) have nfs: "\<forall>c\<in>set cs. no_fault (first_attempt (creation_env c)) \<and>
      no_fault (second_attempt (creation_env c))" by simp
  from Cons.IH [OF nfs d disj a] len rs ok show ?case by simp
qed

text \<open>
  Claim C1. Start from the empty store and run any number of creations in which the
  store fails no statement and \<^verbatim>\<open>uuidv4()\<close> repeats no identifier. Then every call
  returns a record, the chain has one link per call, link number \<open>i\<close> (from 0) stands at
  position \<open>i + 1\<close>, the first link has no previous hash, every later link carries the
  hash of the link before it, and \<^verbatim>\<open>verifyProvenanceChain\<close> answers valid with no issue.
\<close>

theorem creations_give_valid_chain:
  assumes "\<forall>c\<in>set cs. no_fault (first_attempt (creation_env c)) \<and> no_fault (second_attempt (creation_env c))"
    and "distinct (uuids cs)"
    and "create_all H (new_tracker \<lparr>events = [], provenance_chain = []\<rparr> dev) cs = (rs, t)"
  shows "length (provenance_chain (db t)) = length cs \<and>
         (\<forall>r\<in>set rs. \<not> isl r) \<and>
         (\<forall>i<length cs.
            ch_chain_position (provenance_chain (db t) ! i) = int i + 1 \<and>
            ch_previous_hash (provenance_chain (db t) ! i) =
              (if i = 0 then None
               else Some (ch_current_hash (provenance_chain (db t) ! (i - 1))))) \<and>
         verifyProvenanceChain (db t) False =
           Inr \<lparr>isValid = True, totalEvents = length cs, issues = []\<rparr>"
proof -
  let ?t0 = "new_tracker \<lparr>events = [], provenance_chain = []\<rparr> dev"
  let ?rows = "provenance_chain (db t)"
  have "chain_inv ?t0"
    by (simp add: chain_inv_def new_tracker_def tail_hash_def)
  from create_all_chain_inv [OF this assms(3)] have inv: "chain_inv t" .
  have "set (uuids cs) \<inter> set (map ev_event_id (events (db ?t0))) = {}"
    by (simp add: new_tracker_def)
  from create_all_count [OF assms(1) assms(2) this assms(3)]
  have len: "length ?rows = length cs" and ok: "\<forall>r\<in>set rs. \<not> isl r"
    by (simp_all add: new_tracker_def)
  from inv have linked: "linked_from None ?rows"
    and pos: "map ch_chain_position ?rows = map int [1..<Suc (length ?rows)]"
    by (simp_all add: chain_inv_def)
  have nth_pos: "ch_chain_position (?rows ! i) = int i + 1" if "i < length ?rows" for i
  proof -
    from that have "ch_chain_position (?rows ! i) = map ch_chain_position ?rows ! i" by simp
    also have "\<dots> = map int [1..<Suc (length ?rows)] ! i" by (simp only: pos)
    also from that have "\<dots> = int i + 1" by (simp del: upt_Suc)
    finally show ?thesis .
  qed
  have sorted: "sort_key ch_chain_position ?rows = ?rows"
    by (rule sort_key_id_if_sorted) (simp only: pos, simp add: sorted_map del: upt_Suc)
  have no_issue: "issues_from ?rows 1 = []"
    unfolding issues_from_empty_iff using linked_from_nth [OF linked] by simp
  from no_issue have "issues_from ?rows (Suc 0) = []" by simp
  then show ?thesis
    using len ok nth_pos linked_from_nth [OF linked]
    by (simp add: verifyProvenanceChain_eq sorted)
qed

theorem creations_give_valid_chain_witness:
  "length (provenance_chain (db (snd (create_all (\<lambda>text. text)
      (new_tracker \<lparr>events = [], provenance_chain = []\<rparr> \<lparr>initialized = False\<rparr>)
      [\<lparr>creation_env = \<lparr>first_attempt = \<lparr>uuid = ''u1'', now = ''2024-01-01T00:00:00.000Z'',
                   rtc_iso = ''2024-01-01T00:00:00.000Z'', log_fault = False, clock = 100,
                   read_fault = False, insert_fault = False\<rparr>,
               signer = \<lparr>hw_response = Inl SignError, sw_signature = Inr ''3045''\<rparr>,
               second_attempt = \<lparr>uuid = ''u2'', now = ''2024-01-01T00:00:00.010Z'',
                   rtc_iso = ''2024-01-01T00:00:00.000Z'', log_fault = False, clock = 100,
                   read_fault = False, insert_fault = False\<rparr>\<rparr>,
         creation_type = ''motion_detection'', creation_trigger = JObject [(''manual'', JBool True)],
         creation_image = \<lparr>base64Data = ''data:image/jpeg;base64,AAAA'',
                        filepath = ''captures/1.jpg''\<rparr>\<rparr>,
       \<lparr>creation_env = \<lparr>first_attempt = \<lparr>uuid = ''u3'', now = ''2024-01-01T00:00:07.000Z'',
                   rtc_iso = ''2024-01-01T00:00:07.000Z'', log_fault = False, clock = 107,
                   read_fault = False, insert_fault = False\<rparr>,
               signer = \<lparr>hw_response = Inl SignError, sw_signature = Inl SignError\<rparr>,
               second_attempt = \<lparr>uuid = ''u4'', now = ''2024-01-01T00:00:07.010Z'',
                   rtc_iso = ''2024-01-01T00:00:07.000Z'', log_fault = False, clock = 107,
                   read_fault = False, insert_fault = False\<rparr>\<rparr>,
         creation_type = ''motion_detection'', creation_trigger = JObject [(''manual'', JBool True)],
         creation_image = \<lparr>base64Data = ''data:image/jpeg;base64,BBBB'',
                        filepath = ''captures/2.jpg''\<rparr>\<rparr>])))) = 2 \<and>
   verifyProvenanceChain (db (snd (create_all (\<lambda>text. text)
      (new_tracker \<lparr>events = [], provenance_chain = []\<rparr> \<lparr>initialized = False\<rparr>)
      [\<lparr>creation_env = \<lparr>first_attempt = \<lparr>uuid = ''u1'', now = ''2024-01-01T00:00:00.000Z'',
                   rtc_iso = ''2024-01-01T00:00:00.000Z'', log_fault = False, clock = 100,
                   read_fault = False, insert_fault = False\<rparr>,
               signer = \<lparr>hw_response = Inl SignError, sw_signature = Inr ''3045''\<rparr>,
               second_attempt = \<lparr>uuid = ''u2'', now = ''2024-01-01T00:00:00.010Z'',
                   rtc_iso = ''2024-01-01T00:00:00.000Z'', log_fault = False, clock = 100,
                   read_fault = False, insert_fault = False\<rparr>\<rparr>,
         creation_type = ''motion_detection'', creation_trigger = JObject [(''manual'', JBool True)],
         creation_image = \<lparr>base64Data = ''data:image/jpeg;base64,AAAA'',
                        filepath = ''captures/1.jpg''\<rparr>\<rparr>,
       \<lparr>creation_env = \<lparr>first_attempt = \<lparr>uuid = ''u3'', now = ''2024-01-01T00:00:07.000Z'',
                   rtc_iso = ''2024-01-01T00:00:07.000Z'', log_fault = False, clock = 107,
                   read_fault = False, insert_fault = False\<rparr>,
               signer = \<lparr>hw_response = Inl SignError, sw_signature = Inl SignError\<rparr>,
               second_attempt = \<lparr>uuid = ''u4'', now = ''2024-01-01T00:00:07.010Z'',
                   rtc_iso = ''2024-01-01T00:00:07.000Z'', log_fault = False, clock = 107,
                   read_fault = False, insert_fault = False\<rparr>\<rparr>,
         creation_type = ''motion_detection'', creation_trigger = JObject [(''manual'', JBool True)],
         creation_image = \<lparr>base64Data = ''data:image/jpeg;base64,BBBB'',
                        filepath = ''captures/2.jpg''\<rparr>\<rparr>]))) False =
     Inr \<lparr>isValid = True, totalEvents = 2, issues = []\<rparr>"
proof -
  let ?cs = "[\<lparr>creation_env = \<lparr>first_attempt = \<lparr>uuid = ''u1'', now = ''2024-01-01T00:00:00.000Z'',
                   rtc_iso = ''2024-01-01T00:00:00.000Z'', log_fault = False, clock = 100,
                   read_fault = False, insert_fault = False\<rparr>,
               signer = \<lparr>hw_response = Inl SignError, sw_signature = Inr ''3045''\<rparr>,
               second_attempt = \<lparr>uuid = ''u2'', now = ''2024-01-01T00:00:00.010Z'',
                   rtc_iso = ''2024-01-01T00:00:00.000Z'', log_fault = False, clock = 100,
                   read_fault = False, insert_fault = False\<rparr>\<rparr>,
         creation_type = ''motion_detection'', creation_trigger = JObject [(''manual'', JBool True)],
         creation_image = \<lparr>base64Data = ''data:image/jpeg;base64,AAAA'',
                        filepath = ''captures/1.jpg''\<rparr>\<rparr>,
       \<lparr>creation_env = \<lparr>first_attempt = \<lparr>uuid = ''u3'', now = ''2024-01-01T00:00:07.000Z'',
                   rtc_iso = ''2024-01-01T00:00:07.000Z'', log_fault = False, clock = 107,
                   read_fault = False, insert_fault = False\<rparr>,
               signer = \<lparr>hw_response = Inl SignError, sw_signature = Inl SignError\<rparr>,
               second_attempt = \<lparr>uuid = ''u4'', now = ''2024-01-01T00:00:07.010Z'',
                   rtc_iso = ''2024-01-01T00:00:07.000Z'', log_fault = False, clock = 107,
                   read_fault = False, insert_fault = False\<rparr>\<rparr>,
         creation_type = ''motion_detection'', creation_trigger = JObject [(''manual'', JBool True)],
         creation_image = \<lparr>base64Data = ''data:image/jpeg;base64,BBBB'',
                        filepath = ''captures/2.jpg''\<rparr>\<rparr>]"
  let ?t0 = "new_tracker \<lparr>events = [], provenance_chain = []\<rparr> \<lparr>initialized = False\<rparr>"
  have nf: "\<forall>c\<in>set ?cs. no_fault (first_attempt (creation_env c)) \<and> no_fault (second_attempt (creation_env c))"
    by (simp add: no_fault_def)
  have ds: "distinct (uuids ?cs)"
    by (simp add: uuids_def)
  have run: "create_all (\<lambda>text. text) ?t0 ?cs =
      (fst (create_all (\<lambda>text. text) ?t0 ?cs), snd (create_all (\<lambda>text. text) ?t0 ?cs))"
    by simp
  from creations_give_valid_chain [OF nf ds run] show ?thesis
    by simp
qed

subsection \<open>A chain append that fails, and the cursor at start-up\<close>

text \<open>
  Claim C4 does not hold of the code. The store accepts the event row of the first
  attempt and fails the INSERT of its link. The catch clause of
  \<^verbatim>\<open>createProvenanceRecord\<close> then runs \<^verbatim>\<open>createUnsignedRecord\<close>, which writes a second
  event row for the same trigger, links that one and moves the cursor; the call returns
  an unsigned record although the signer had signed. The first row stays without a link.
\<close>

theorem chain_append_failure_is_retried:
  "case createProvenanceRecord H
          (new_tracker \<lparr>events = [], provenance_chain = []\<rparr> \<lparr>initialized = False\<rparr>)
          \<lparr>first_attempt = \<lparr>uuid = ''u1'', now = ''2024-01-01T00:00:00.000Z'',
               rtc_iso = ''2024-01-01T00:00:00.000Z'', log_fault = False, clock = 100,
               read_fault = False, insert_fault = True\<rparr>,
           signer = \<lparr>hw_response = Inl SignError, sw_signature = Inr ''3045''\<rparr>,
           second_attempt = \<lparr>uuid = ''u2'', now = ''2024-01-01T00:00:00.010Z'',
               rtc_iso = ''2024-01-01T00:00:00.000Z'', log_fault = False, clock = 100,
               read_fault = False, insert_fault = False\<rparr>\<rparr>
          ''motion_detection'' (JObject [(''manual'', JBool True)])
          \<lparr>base64Data = ''data:image/jpeg;base64,AAAA'', filepath = ''captures/1.jpg''\<rparr> of
     (result, t') \<Rightarrow>
       map ev_event_id (events (db t')) = [''u1'', ''u2''] \<and>
       map ev_signature (events (db t')) = [Some ''3045'', None] \<and>
       map ch_event_id (provenance_chain (db t')) = [''u2''] \<and>
       (case result of
          Inl e \<Rightarrow> False
        | Inr r \<Rightarrow> signed r = False \<and> eventId (stored r) = ''u2'' \<and>
                   lastHash t' = Some (currentHash r))"
  by (simp add: createProvenanceRecord_def createUnsignedRecord_def new_tracker_def signData_def
      softwareSign_def logEvent_def inserted_row_def addToProvenanceChain_def max_pos_def Let_def)

text \<open>
  The sibling path stops where \<^verbatim>\<open>createProvenanceRecord\<close> goes on: when the store has
  accepted the event row and fails a statement of \<^verbatim>\<open>addToProvenanceChain\<close>,
  \<^verbatim>\<open>createUnsignedRecord\<close> rethrows. The row stays without a link, the chain and the
  cursor are as before.
\<close>

lemma addToProvenanceChain_fault:
  "rfault \<or> ifault \<Longrightarrow> addToProvenanceChain d rfault ifault i h c = Inl SqliteError"
  by (auto simp: addToProvenanceChain_def Let_def)

lemma createUnsignedRecord_append_failure:
  assumes "\<not> log_fault a" and "uuid a \<notin> set (map ev_event_id (events (db t)))"
    and "read_fault a \<or> insert_fault a"
  shows "\<exists>row. createUnsignedRecord H t a et td img =
                 (Inl SqliteError, t\<lparr>db := (db t)\<lparr>events := events (db t) @ [row]\<rparr>\<rparr>) \<and>
               ev_event_id row = uuid a"
proof -
  let ?rec = "\<lparr>eventId = uuid a, timestamp = now a, rtcTimestamp = rtc_iso a,
     eventType = et, triggerData = td, imagePath = filepath img,
     imageHash = calculateImageHash H img, signature = None,
     signatureInfo = JObject [(''signed'', JBool False),
                              (''reason'', JString ''Crypto device unavailable'')],
     verificationStatus = False\<rparr>"
  have "createUnsignedRecord H t a et td img =
      (Inl SqliteError,
       t\<lparr>db := (db t)\<lparr>events := events (db t) @ [inserted_row (clock a) ?rec]\<rparr>\<rparr>)"
    using assms
    by (simp add: createUnsignedRecord_def Let_def logEvent_ok addToProvenanceChain_fault)
  moreover have "ev_event_id (inserted_row (clock a) ?rec) = uuid a"
    by (simp add: inserted_row_def)
  ultimately show ?thesis by blast
qed

text \<open>
  Claim C8 does not hold of the code. \<^verbatim>\<open>initialize\<close> reads the newest event row, not the
  tail of the chain. Below, event \<open>a\<close> has the only link, with hash \<open>aa\<close>; the newer event
  \<open>b\<close> has none. The cursor is set to null and not to \<open>aa\<close>.
\<close>

theorem initialize_orphaned_newest_event:
  "(case initialize
      (\<lambda>text. if text = JSON_stringify (JObject [(''manual'', JBool True)])
               then Some (JObject [(''manual'', JBool True)])
             else if text = JSON_stringify (JObject [(''signed'', JBool False),
                      (''reason'', JString ''Crypto device unavailable'')])
               then Some (JObject [(''signed'', JBool False),
                      (''reason'', JString ''Crypto device unavailable'')])
             else None)
      (new_tracker
         \<lparr>events =
            [\<lparr>ev_event_id = ''a'', ev_timestamp = ''2024-01-01T00:00:00.000Z'',
              ev_rtc_timestamp = ''2024-01-01T00:00:00.000Z'',
              ev_event_type = ''motion_detection'',
              ev_trigger_data = Some (JSON_stringify (JObject [(''manual'', JBool True)])),
              ev_image_path = ''captures/1.jpg'', ev_image_hash = ''11'',
              ev_signature = None,
              ev_signature_info = Some (JSON_stringify (JObject [(''signed'', JBool False),
                      (''reason'', JString ''Crypto device unavailable'')])),
              ev_verification_status = 0, ev_created_at = 100\<rparr>,
             \<lparr>ev_event_id = ''b'', ev_timestamp = ''2024-01-01T00:00:05.000Z'',
              ev_rtc_timestamp = ''2024-01-01T00:00:05.000Z'',
              ev_event_type = ''motion_detection'',
              ev_trigger_data = Some (JSON_stringify (JObject [(''manual'', JBool True)])),
              ev_image_path = ''captures/2.jpg'', ev_image_hash = ''22'',
              ev_signature = None,
              ev_signature_info = Some (JSON_stringify (JObject [(''signed'', JBool False),
                      (''reason'', JString ''Crypto device unavailable'')])),
              ev_verification_status = 0, ev_created_at = 105\<rparr>],
          provenance_chain =
            [\<lparr>ch_event_id = ''a'', ch_previous_hash = None, ch_current_hash = ''aa'',
              ch_chain_position = 1\<rparr>]\<rparr>
         \<lparr>initialized = False\<rparr>) False of
      Inl e \<Rightarrow> False
    | Inr t' \<Rightarrow> lastHash t' = None \<and>
               tail_hash (provenance_chain (db t')) = Some ''aa'')"
  by (simp add: initialize_def getEvents_def new_tracker_def left_join_def parse_row_def
      or_empty_object_def quote_string_def quote_char_def tail_hash_def Let_def)

subsection \<open>A signer that fails\<close>

lemma createProvenanceRecord_signer_fails:
  assumes "\<forall>data. isl (signData (crypto t) (signer e) data)"
  shows "createProvenanceRecord H t e et td img =
         createUnsignedRecord H t (second_attempt e) et td img"
proof -
  let ?data = "JSON_stringify (JObject (eventData (uuid (first_attempt e)) (now (first_attempt e))
       (rtc_iso (first_attempt e)) et td (calculateImageHash H img) (lastHash t)))"
  from assms have "isl (signData (crypto t) (signer e) ?data)" by blast
  then obtain x where "signData (crypto t) (signer e) ?data = Inl x"
    by (cases "signData (crypto t) (signer e) ?data") auto
  then show ?thesis
    by (simp add: createProvenanceRecord_def Let_def)
qed

text \<open>
  Claim C9. When the signer fails on every input and the store accepts the statements of
  the fallback attempt, \<^verbatim>\<open>createProvenanceRecord\<close> returns a record with \<^verbatim>\<open>signed: false\<close>,
  no signature and a signature description without trust tag; the event row and its link
  are written and the cursor moves to the new hash.
\<close>

theorem signer_failure_gives_unsigned_record:
  assumes "\<forall>data. isl (signData (crypto t) (signer e) data)"
    and "no_fault (second_attempt e)"
    and "uuid (second_attempt e) \<notin> set (map ev_event_id (events (db t)))"
    and "createProvenanceRecord H t e et td img = (r, t')"
  shows "\<exists>rec row link.
           r = Inr rec \<and> signed rec = False \<and> signature (stored rec) = None \<and>
           trust_tag (signatureInfo (stored rec)) = Absent \<and>
           events (db t') = events (db t) @ [row] \<and>
           ev_event_id row = eventId (stored rec) \<and> ev_signature row = None \<and>
           ev_signature_info row = Some (JSON_stringify (signatureInfo (stored rec))) \<and>
           provenance_chain (db t') = provenance_chain (db t) @ [link] \<and>
           ch_event_id link = eventId (stored rec) \<and>
           ch_previous_hash link = lastHash t \<and>
           ch_current_hash link = currentHash rec \<and>
           lastHash t' = Some (currentHash rec)"
proof -
  from assms(4) have u: "createUnsignedRecord H t (second_attempt e) et td img = (r, t')"
    by (simp add: createProvenanceRecord_signer_fails [OF assms(1)])
  from createUnsignedRecord_succeeds [OF assms(2,3), of H et td img] u
  have ok: "\<not> isl r" by simp
  with createUnsignedRecord_effect [OF u] obtain rec row link where
    r: "r = Inr rec" and w: "link_written H td row link t t'" and
    f: "signed rec = False" "currentHash rec = ch_current_hash link"
       "eventId (stored rec) = ev_event_id row" "signature (stored rec) = None"
       "ev_signature row = None"
       "signatureInfo (stored rec) = JObject [(''signed'', JBool False),
          (''reason'', JString ''Crypto device unavailable'')]"
       "ev_signature_info row = Some (JSON_stringify (signatureInfo (stored rec)))"
    by auto
  have tag: "trust_tag (signatureInfo (stored rec)) = Absent"
    by (simp add: f(6) trust_tag_def property_def)
  from w have
    t': "events (db t') = events (db t) @ [row]"
        "provenance_chain (db t') = provenance_chain (db t) @ [link]"
        "lastHash t' = Some (ch_current_hash link)"
        "ch_event_id link = ev_event_id row" "ch_previous_hash link = lastHash t"
    by (simp_all add: link_written_def)
  show ?thesis
    by (intro exI [of _ rec] exI [of _ row] exI [of _ link]) (simp add: r f(1-5,7) tag t')
qed

theorem signer_failure_gives_unsigned_record_witness:
  "\<exists>rec. fst (createProvenanceRecord (\<lambda>text. text)
            (new_tracker \<lparr>events = [], provenance_chain = []\<rparr> \<lparr>initialized = False\<rparr>)
            \<lparr>first_attempt = \<lparr>uuid = ''u1'', now = ''2024-01-01T00:00:00.000Z'',
                 rtc_iso = ''2024-01-01T00:00:00.000Z'', log_fault = False, clock = 100,
                 read_fault = False, insert_fault = False\<rparr>,
             signer = \<lparr>hw_response = Inl SignError, sw_signature = Inl SignError\<rparr>,
             second_attempt = \<lparr>uuid = ''u2'', now = ''2024-01-01T00:00:00.010Z'',
                 rtc_iso = ''2024-01-01T00:00:00.000Z'', log_fault = False, clock = 100,
                 read_fault = False, insert_fault = False\<rparr>\<rparr>
            ''motion_detection'' (JObject [(''manual'', JBool True)])
            \<lparr>base64Data = ''AAAA'', filepath = ''captures/1.jpg''\<rparr>) = Inr rec \<and>
         signed rec = False \<and> signature (stored rec) = None \<and>
         trust_tag (signatureInfo (stored rec)) = Absent"
proof -
  let ?t = "new_tracker \<lparr>events = [], provenance_chain = []\<rparr> \<lparr>initialized = False\<rparr>"
  let ?e = "\<lparr>first_attempt = \<lparr>uuid = ''u1'', now = ''2024-01-01T00:00:00.000Z'',
                 rtc_iso = ''2024-01-01T00:00:00.000Z'', log_fault = False, clock = 100,
                 read_fault = False, insert_fault = False\<rparr>,
             signer = \<lparr>hw_response = Inl SignError, sw_signature = Inl SignError\<rparr>,
             second_attempt = \<lparr>uuid = ''u2'', now = ''2024-01-01T00:00:00.010Z'',
                 rtc_iso = ''2024-01-01T00:00:00.000Z'', log_fault = False, clock = 100,
                 read_fault = False, insert_fault = False\<rparr>\<rparr>"
  let ?call = "createProvenanceRecord (\<lambda>text. text) ?t ?e ''motion_detection''
      (JObject [(''manual'', JBool True)]) \<lparr>base64Data = ''AAAA'', filepath = ''captures/1.jpg''\<rparr>"
  have 1: "\<forall>data. isl (signData (crypto ?t) (signer ?e) data)"
    by (simp add: signData_def softwareSign_def new_tracker_def)
  have 2: "no_fault (second_attempt ?e)"
    by (simp add: no_fault_def)
  have 3: "uuid (second_attempt ?e) \<notin> set (map ev_event_id (events (db ?t)))"
    by (simp add: new_tracker_def)
  have 4: "?call = (fst ?call, snd ?call)"
    by simp
  from signer_failure_gives_unsigned_record [OF 1 2 3 4] show ?thesis
    by blast
qed

subsection \<open>The stored hash can be computed again\<close>

lemma hash_inv_orphan:
  assumes "hash_inv parse H (db t)" and "orphan_written u t t'"
  shows "hash_inv parse H (db t')"
proof -
  from assms(2) obtain row where
    row: "ev_event_id row = u" and fresh: "u \<notin> set (map ev_event_id (events (db t)))" and
    t': "t' = t\<lparr>db := (db t)\<lparr>events := events (db t) @ [row]\<rparr>\<rparr>"
    by (auto simp: orphan_written_def)
  from assms(1) have
    fk: "\<forall>p\<in>set (provenance_chain (db t)). ch_event_id p \<in> set (map ev_event_id (events (db t)))"
    by (simp add: hash_inv_def)
  with fresh row have no: "\<forall>p\<in>set (provenance_chain (db t)). ch_event_id p \<noteq> ev_event_id row"
    by metis
  show ?thesis
    using assms(1) no unfolding t' hash_inv_def by auto
qed

lemma hash_inv_link:
  assumes "hash_inv parse H (db t)" and "link_written H td row link t t'"
    and "parse [] = None" and "parse (JSON_stringify td) = Some td"
  shows "hash_inv parse H (db t')"
proof -
  from assms(2) have
    fresh: "ev_event_id row \<notin> set (map ev_event_id (events (db t)))" and
    trig: "ev_trigger_data row = Some (JSON_stringify td)" and
    lid: "ch_event_id link = ev_event_id row" and
    prev: "ch_previous_hash link = lastHash t" and
    cur: "ch_current_hash link =
        calculateEventHash H
          (eventData (ev_event_id row) (ev_timestamp row) (ev_rtc_timestamp row)
             (ev_event_type row) td (ev_image_hash row) (lastHash t))
          (ev_signature row)" and
    t': "t' = t\<lparr>db := \<lparr>events = events (db t) @ [row],
                      provenance_chain = provenance_chain (db t) @ [link]\<rparr>,
              lastHash := Some (ch_current_hash link)\<rparr>"
    by (simp_all add: link_written_def)
  from assms(1) have
    fk: "\<forall>p\<in>set (provenance_chain (db t)). ch_event_id p \<in> set (map ev_event_id (events (db t)))"
    and old: "\<forall>e\<in>set (events (db t)). \<forall>p\<in>set (provenance_chain (db t)).
         ch_event_id p = ev_event_id e \<longrightarrow>
         (\<exists>td. parse (or_empty_object (ev_trigger_data e)) = Some td \<and>
               ch_current_hash p =
                 calculateEventHash H
                   (eventData (ev_event_id e) (ev_timestamp e) (ev_rtc_timestamp e)
                      (ev_event_type e) td (ev_image_hash e) (ch_previous_hash p))
                   (ev_signature e))"
    by (simp_all add: hash_inv_def)
  from fk fresh have no1: "\<forall>p\<in>set (provenance_chain (db t)). ch_event_id p \<noteq> ev_event_id row"
    by metis
  from fresh lid have no2: "\<forall>e\<in>set (events (db t)). ch_event_id link \<noteq> ev_event_id e"
    by auto
  from assms(3,4) have "JSON_stringify td \<noteq> []" by auto
  with assms(4) trig have p: "parse (or_empty_object (ev_trigger_data row)) = Some td"
    by (simp add: or_empty_object_def)
  have new: "\<exists>td. parse (or_empty_object (ev_trigger_data row)) = Some td \<and>
               ch_current_hash link =
                 calculateEventHash H
                   (eventData (ev_event_id row) (ev_timestamp row) (ev_rtc_timestamp row)
                      (ev_event_type row) td (ev_image_hash row) (ch_previous_hash link))
                   (ev_signature row)"
    using p cur prev by (intro exI [of _ td]) simp
  have 1: "\<forall>p\<in>set (provenance_chain (db t')).
             ch_event_id p \<in> set (map ev_event_id (events (db t')))"
    using fk lid unfolding t' by auto
  have 2: "\<forall>e\<in>set (events (db t')). \<forall>p\<in>set (provenance_chain (db t')).
         ch_event_id p = ev_event_id e \<longrightarrow>
         (\<exists>td. parse (or_empty_object (ev_trigger_data e)) = Some td \<and>
               ch_current_hash p =
                 calculateEventHash H
                   (eventData (ev_event_id e) (ev_timestamp e) (ev_rtc_timestamp e)
                      (ev_event_type e) td (ev_image_hash e) (ch_previous_hash p))
                   (ev_signature e))"
  proof (intro ballI impI)
    fix e p
    assume e: "e \<in> set (events (db t'))" and p: "p \<in> set (provenance_chain (db t'))"
      and m: "ch_event_id p = ev_event_id e"
    from e have e': "e \<in> set (events (db t)) \<or> e = row" unfolding t' by auto
    from p have p': "p \<in> set (provenance_chain (db t)) \<or> p = link" unfolding t' by auto
    from e' p' m no1 no2 old new
    show "\<exists>td. parse (or_empty_object (ev_trigger_data e)) = Some td \<and>
               ch_current_hash p =
                 calculateEventHash H
                   (eventData (ev_event_id e) (ev_timestamp e) (ev_rtc_timestamp e)
                      (ev_event_type e) td (ev_image_hash e) (ch_previous_hash p))
                   (ev_signature e)"
      by blast
  qed
  from 1 2 show ?thesis unfolding hash_inv_def by blast
qed

lemma hash_inv_attempt:
  assumes "hash_inv parse H (db t)" and "attempt_effect H td u t r t'"
    and "parse [] = None" and "parse (JSON_stringify td) = Some td"
  shows "hash_inv parse H (db t')"
  using assms unfolding attempt_effect_def
  by (blast intro: hash_inv_orphan hash_inv_link)

lemma createProvenanceRecord_hash_inv:
  assumes "hash_inv parse H (db t)" and "createProvenanceRecord H t e et td img = (r, t')"
    and "parse [] = None" and "parse (JSON_stringify td) = Some td"
  shows "hash_inv parse H (db t')"
proof -
  from createProvenanceRecord_effect [OF assms(2)] obtain u t1 where
    t1: "t1 = t \<or> orphan_written (uuid (first_attempt e)) t t1" and
    a: "attempt_effect H td u t1 r t'"
    by blast
  from t1 assms(1) have "hash_inv parse H (db t1)"
    by (blast intro: hash_inv_orphan)
  from hash_inv_attempt [OF this a assms(3,4)] show ?thesis .
qed

lemma create_all_hash_inv:
  assumes "hash_inv parse H (db t)" and "create_all H t cs = (rs, t')"
    and "parse [] = None"
    and "\<forall>c\<in>set cs. parse (JSON_stringify (creation_trigger c)) = Some (creation_trigger c)"
  shows "hash_inv parse H (db t')"
  using assms
proof (induction cs arbitrary: t rs)
  case Nil
  then show ?case by simp
next
  case (Cons c cs)
  obtain r t1 where s: "createProvenanceRecord H t (creation_env c) (creation_type c)
      (creation_trigger c) (creation_image c) = (r, t1)"
    by (cases "createProvenanceRecord H t (creation_env c) (creation_type c)
      (creation_trigger c) (creation_image c)")
  from Cons.prems(2) s obtain rs1 where a: "create_all H t1 cs = (rs1, t')"
    by (auto split: prod.splits)
  from Cons.prems(4) have c: "parse (JSON_stringify (creation_trigger c)) = Some (creation_trigger c)"
    and cs: "\<forall>c\<in>set cs. parse (JSON_stringify (creation_trigger c)) = Some (creation_trigger c)"
    by simp_all
  from createProvenanceRecord_hash_inv [OF Cons.prems(1) s Cons.prems(3) c]
  have "hash_inv parse H (db t1)" .
  from Cons.IH [OF this a Cons.prems(3) cs] show ?case .
qed

lemma left_join_set:
  "(e', p) \<in> set (left_join chain e) \<Longrightarrow>
   e' = e \<and> (\<forall>link. p = Some link \<longrightarrow> link \<in> set chain \<and> ch_event_id link = ev_event_id e)"
proof (cases "filter (\<lambda>p. ch_event_id p = ev_event_id e) chain")
  case Nil
  assume "(e', p) \<in> set (left_join chain e)"
  with Nil show ?thesis by (simp add: left_join_def)
next
  case (Cons a as)
  assume "(e', p) \<in> set (left_join chain e)"
  with Cons have "e' = e" and "\<forall>link. p = Some link \<longrightarrow>
      link \<in> set (filter (\<lambda>p. ch_event_id p = ev_event_id e) chain)"
    by (auto simp: left_join_def)
  then show ?thesis by auto
qed

lemma getEventById_row:
  assumes "getEventById parse d False i = Inr (Some v)"
  shows "\<exists>e p. e \<in> set (events d) \<and> parse_row parse (e, p) = Inr v \<and>
           (\<forall>link. p = Some link \<longrightarrow>
              link \<in> set (provenance_chain d) \<and> ch_event_id link = ev_event_id e)"
proof (cases "concat (map (left_join (provenance_chain d))
                       (filter (\<lambda>e. ev_event_id e = i) (events d)))")
  case Nil
  with assms show ?thesis by (simp add: getEventById_def)
next
  case (Cons row rest)
  obtain e p where row: "row = (e, p)" by (cases row)
  from Cons have "row \<in> set (concat (map (left_join (provenance_chain d))
                       (filter (\<lambda>e. ev_event_id e = i) (events d))))"
    by simp
  then obtain e0 where e0: "e0 \<in> set (events d)"
    and j: "(e, p) \<in> set (left_join (provenance_chain d) e0)"
    unfolding row by auto
  from left_join_set [OF j] e0 have "e \<in> set (events d)"
    and "\<forall>link. p = Some link \<longrightarrow>
           link \<in> set (provenance_chain d) \<and> ch_event_id link = ev_event_id e"
    by auto
  moreover from assms Cons row have "parse_row parse (e, p) = Inr v"
    by (simp add: getEventById_def split: sum.splits)
  ultimately show ?thesis by blast
qed

lemma parse_row_fields:
  assumes "parse_row parse (e, p) = Inr v"
  shows "row_event_id v = ev_event_id e" and "row_timestamp v = ev_timestamp e"
    and "row_rtc_timestamp v = ev_rtc_timestamp e" and "row_event_type v = ev_event_type e"
    and "row_image_hash v = ev_image_hash e" and "row_signature v = ev_signature e"
    and "parse (or_empty_object (ev_trigger_data e)) = Some (row_trigger_data v)"
    and "row_current_hash v = map_option ch_current_hash p"
    and "row_previous_hash v = Option.bind p ch_previous_hash"
  using assms by (auto simp: parse_row_def split: option.splits)

text \<open>
  Claim C5. \<^verbatim>\<open>calculateEventHash\<close> is a function of the event data and the signature.
  After any sequence of creations on the empty store, take any event that
  \<^verbatim>\<open>getEventById\<close> returns with a link: the hash computed again from the returned fields
  (the data rebuilt as \<^verbatim>\<open>verifyEvent\<close> rebuilds it, and the stored signature) is the stored
  \<^verbatim>\<open>current_hash\<close>. \<^verbatim>\<open>JSON.parse\<close> is assumed to throw on the empty text and to give back
  each trigger data from its \<^verbatim>\<open>JSON.stringify\<close> text.
\<close>

theorem stored_hash_is_reproduced:
  assumes "parse [] = None"
    and "\<forall>c\<in>set cs. parse (JSON_stringify (creation_trigger c)) = Some (creation_trigger c)"
    and "create_all H (new_tracker \<lparr>events = [], provenance_chain = []\<rparr> dev) cs = (rs, t)"
    and "getEventById parse (db t) False i = Inr (Some v)"
    and "row_current_hash v = Some h"
  shows "calculateEventHash H
           (eventData (row_event_id v) (row_timestamp v) (row_rtc_timestamp v)
              (row_event_type v) (row_trigger_data v) (row_image_hash v)
              (row_previous_hash v))
           (row_signature v) = h"
proof -
  have "hash_inv parse H (db (new_tracker \<lparr>events = [], provenance_chain = []\<rparr> dev))"
    by (simp add: hash_inv_def new_tracker_def)
  from create_all_hash_inv [OF this assms(3) assms(1) assms(2)]
  have inv: "hash_inv parse H (db t)" .
  from getEventById_row [OF assms(4)] obtain e p where
    e: "e \<in> set (events (db t))" and pr: "parse_row parse (e, p) = Inr v" and
    p: "\<forall>link. p = Some link \<longrightarrow>
          link \<in> set (provenance_chain (db t)) \<and> ch_event_id link = ev_event_id e"
    by blast
  note f = parse_row_fields [OF pr]
  from assms(5) f(8) obtain link where l: "p = Some link" and lh: "ch_current_hash link = h"
    by (cases p) auto
  from p l have lin: "link \<in> set (provenance_chain (db t))"
    and lid: "ch_event_id link = ev_event_id e"
    by simp_all
  from inv e lin lid obtain td where
    td: "parse (or_empty_object (ev_trigger_data e)) = Some td" and
    hh: "ch_current_hash link =
           calculateEventHash H
             (eventData (ev_event_id e) (ev_timestamp e) (ev_rtc_timestamp e)
                (ev_event_type e) td (ev_image_hash e) (ch_previous_hash link))
             (ev_signature e)"
    unfolding hash_inv_def by blast
  from td f(7) have "row_trigger_data v = td" by simp
  with hh lh f(1-6) f(9) l show ?thesis by simp
qed

theorem stored_hash_is_reproduced_witness:
  "\<exists>v h.
     getEventById
       (\<lambda>text. if text = ''{}'' then Some (JObject [])
              else if text = JSON_stringify (sign_result_json
                  \<lparr>sr_signature = ''3045'', sr_algorithm = ''ECDSA-SHA256'',
                   sr_keyId = ''SOFTWARE-FALLBACK'', sr_hardware = False\<rparr>)
                then Some (sign_result_json
                  \<lparr>sr_signature = ''3045'', sr_algorithm = ''ECDSA-SHA256'',
                   sr_keyId = ''SOFTWARE-FALLBACK'', sr_hardware = False\<rparr>)
              else None)
       (db (snd (create_all (\<lambda>text. text)
          (new_tracker \<lparr>events = [], provenance_chain = []\<rparr> \<lparr>initialized = False\<rparr>)
          [\<lparr>creation_env =
              \<lparr>first_attempt = \<lparr>uuid = ''u1'', now = ''2024-01-01T00:00:00.000Z'',
                 rtc_iso = ''2024-01-01T00:00:00.000Z'', log_fault = False, clock = 100,
                 read_fault = False, insert_fault = False\<rparr>,
               signer = \<lparr>hw_response = Inl SignError, sw_signature = Inr ''3045''\<rparr>,
               second_attempt = \<lparr>uuid = ''u2'', now = ''2024-01-01T00:00:00.010Z'',
                 rtc_iso = ''2024-01-01T00:00:00.000Z'', log_fault = False, clock = 100,
                 read_fault = False, insert_fault = False\<rparr>\<rparr>,
            creation_type = ''motion_detection'', creation_trigger = JObject [],
            creation_image = \<lparr>base64Data = ''AAAA'', filepath = ''captures/1.jpg''\<rparr>\<rparr>])))
       False ''u1'' = Inr (Some v) \<and>
     row_current_hash v = Some h \<and>
     calculateEventHash (\<lambda>text. text)
       (eventData (row_event_id v) (row_timestamp v) (row_rtc_timestamp v)
          (row_event_type v) (row_trigger_data v) (row_image_hash v) (row_previous_hash v))
       (row_signature v) = h"
proof -
  let ?parse = "\<lambda>text. if text = ''{}'' then Some (JObject [])
              else if text = JSON_stringify (sign_result_json
                  \<lparr>sr_signature = ''3045'', sr_algorithm = ''ECDSA-SHA256'',
                   sr_keyId = ''SOFTWARE-FALLBACK'', sr_hardware = False\<rparr>)
                then Some (sign_result_json
                  \<lparr>sr_signature = ''3045'', sr_algorithm = ''ECDSA-SHA256'',
                   sr_keyId = ''SOFTWARE-FALLBACK'', sr_hardware = False\<rparr>)
              else None"
  let ?t0 = "new_tracker \<lparr>events = [], provenance_chain = []\<rparr> \<lparr>initialized = False\<rparr>"
  let ?cs = "[\<lparr>creation_env =
              \<lparr>first_attempt = \<lparr>uuid = ''u1'', now = ''2024-01-01T00:00:00.000Z'',
                 rtc_iso = ''2024-01-01T00:00:00.000Z'', log_fault = False, clock = 100,
                 read_fault = False, insert_fault = False\<rparr>,
               signer = \<lparr>hw_response = Inl SignError, sw_signature = Inr ''3045''\<rparr>,
               second_attempt = \<lparr>uuid = ''u2'', now = ''2024-01-01T00:00:00.010Z'',
                 rtc_iso = ''2024-01-01T00:00:00.000Z'', log_fault = False, clock = 100,
                 read_fault = False, insert_fault = False\<rparr>\<rparr>,
            creation_type = ''motion_detection'', creation_trigger = JObject [],
            creation_image = \<lparr>base64Data = ''AAAA'', filepath = ''captures/1.jpg''\<rparr>\<rparr>]"
  let ?run = "create_all (\<lambda>text. text) ?t0 ?cs"
  have 1: "?parse [] = None"
    by (simp add: sign_result_json_def quote_string_def)
  have 2: "\<forall>c\<in>set ?cs. ?parse (JSON_stringify (creation_trigger c)) = Some (creation_trigger c)"
    by simp
  have 3: "?run = (fst ?run, snd ?run)"
    by simp
  have "\<exists>v h. getEventById ?parse (db (snd ?run)) False ''u1'' = Inr (Some v) \<and>
      row_current_hash v = Some h"
    by (simp add: createProvenanceRecord_def calculateImageHash_def new_tracker_def
        signData_def softwareSign_def logEvent_def inserted_row_def addToProvenanceChain_def
        max_pos_def getEventById_def left_join_def parse_row_def or_empty_object_def
        sign_result_json_def quote_string_def Let_def)
  then obtain v h where 4: "getEventById ?parse (db (snd ?run)) False ''u1'' = Inr (Some v)"
    and 5: "row_current_hash v = Some h"
    by blast
  from stored_hash_is_reproduced [OF 1 2 3 4 5] 4 5 show ?thesis
    by blast
qed

subsection \<open>The rows that creations write can be parsed\<close>

text \<open>
  \<^verbatim>\<open>logEvent\<close> fills the two JSON columns with texts of \<^verbatim>\<open>JSON.stringify\<close>. When
  \<^verbatim>\<open>JSON.parse\<close> accepts these texts, every row of a store that creations alone have
  written parses, and \<^verbatim>\<open>verifyEvent\<close> returns a value for every identifier.
\<close>

lemma columns_parse_events:
  "events d' = events d \<Longrightarrow> columns_parse parse d' = columns_parse parse d"
  by (simp add: columns_parse_def)

lemma inserted_row_columns:
  assumes "parse ''{}'' \<noteq> None"
    and "parse (JSON_stringify (triggerData r)) \<noteq> None"
    and "parse (JSON_stringify (signatureInfo r)) \<noteq> None"
  shows "parse (or_empty_object (ev_trigger_data (inserted_row c r))) \<noteq> None \<and>
         parse (or_empty_object (ev_signature_info (inserted_row c r))) \<noteq> None"
  using assms by (simp add: inserted_row_def or_empty_object_def)

lemma logEvent_columns:
  assumes "logEvent d f c r = Inr d1" and "columns_parse parse d"
    and "parse ''{}'' \<noteq> None"
    and "parse (JSON_stringify (triggerData r)) \<noteq> None"
    and "parse (JSON_stringify (signatureInfo r)) \<noteq> None"
  shows "columns_parse parse d1"
proof -
  from logEvent_cases [OF assms(1)]
  have d1: "d1 = d\<lparr>events := events d @ [inserted_row c r]\<rparr>" by simp
  from inserted_row_columns [OF assms(3-5), of c] assms(2) show ?thesis
    unfolding d1 columns_parse_def by auto
qed

lemma addToProvenanceChain_events:
  "addToProvenanceChain d rfault ifault i h c = Inr (p, d2) \<Longrightarrow> events d2 = events d"
  by (auto dest!: addToProvenanceChain_cases)

lemma createUnsignedRecord_columns:
  assumes "columns_parse parse (db t)"
    and "parse ''{}'' \<noteq> None"
    and "parse (JSON_stringify td) \<noteq> None"
    and "parse (JSON_stringify (JObject [(''signed'', JBool False),
           (''reason'', JString ''Crypto device unavailable'')])) \<noteq> None"
    and "createUnsignedRecord H t a et td img = (r, t')"
  shows "columns_parse parse (db t')"
proof -
  let ?rec = "\<lparr>eventId = uuid a, timestamp = now a, rtcTimestamp = rtc_iso a,
     eventType = et, triggerData = td, imagePath = filepath img,
     imageHash = calculateImageHash H img, signature = None,
     signatureInfo = JObject [(''signed'', JBool False),
                              (''reason'', JString ''Crypto device unavailable'')],
     verificationStatus = False\<rparr>"
  show ?thesis
  proof (cases "logEvent (db t) (log_fault a) (clock a) ?rec")
    case (Inl e)
    with assms(5) have "t' = t" by (simp add: createUnsignedRecord_def Let_def)
    with assms(1) show ?thesis by simp
  next
    case (Inr d1)
    have p1: "parse (JSON_stringify (triggerData ?rec)) \<noteq> None"
      using assms(3) by simp
    have p2: "parse (JSON_stringify (signatureInfo ?rec)) \<noteq> None"
      using assms(4) by simp
    from logEvent_columns [OF Inr assms(1,2) p1 p2] have c1: "columns_parse parse d1" .
    from assms(5) Inr have ev: "events (db t') = events d1"
      by (auto simp: createUnsignedRecord_def Let_def split: sum.splits
          dest: addToProvenanceChain_events)
    from c1 show ?thesis unfolding columns_parse_events [OF ev] .
  qed
qed

lemma createProvenanceRecord_columns:
  assumes "columns_parse parse (db t)"
    and "parse ''{}'' \<noteq> None"
    and "parse (JSON_stringify td) \<noteq> None"
    and "parse (JSON_stringify (JObject [(''signed'', JBool False),
           (''reason'', JString ''Crypto device unavailable'')])) \<noteq> None"
    and "\<forall>info. parse (JSON_stringify (sign_result_json info)) \<noteq> None"
    and "createProvenanceRecord H t e et td img = (r, t')"
  shows "columns_parse parse (db t')"
proof (cases "signData (crypto t) (signer e)
    (JSON_stringify (JObject (eventData (uuid (first_attempt e)) (now (first_attempt e))
       (rtc_iso (first_attempt e)) et td (calculateImageHash H img) (lastHash t))))")
  case (Inl x)
  with assms(6) have "createUnsignedRecord H t (second_attempt e) et td img = (r, t')"
    by (simp add: createProvenanceRecord_def Let_def)
  from createUnsignedRecord_columns [OF assms(1-4) this] show ?thesis .
next
  case (Inr info)
  let ?rec = "\<lparr>eventId = uuid (first_attempt e), timestamp = now (first_attempt e),
     rtcTimestamp = rtc_iso (first_attempt e), eventType = et, triggerData = td,
     imagePath = filepath img, imageHash = calculateImageHash H img,
     signature = Some (sr_signature info), signatureInfo = sign_result_json info,
     verificationStatus = True\<rparr>"
  show ?thesis
  proof (cases "logEvent (db t) (log_fault (first_attempt e)) (clock (first_attempt e)) ?rec")
    case (Inl x)
    with assms(6) \<open>signData _ _ _ = Inr info\<close>
    have "createUnsignedRecord H t (second_attempt e) et td img = (r, t')"
      by (simp add: createProvenanceRecord_def Let_def)
    from createUnsignedRecord_columns [OF assms(1-4) this] show ?thesis .
  next
    case (Inr d1)
    note logged = this
    have p1: "parse (JSON_stringify (triggerData ?rec)) \<noteq> None"
      using assms(3) by simp
    have p2: "parse (JSON_stringify (signatureInfo ?rec)) \<noteq> None"
      using assms(5) by simp
    from logEvent_columns [OF Inr assms(1,2) p1 p2] have c1: "columns_parse parse d1" .
    show ?thesis
    proof (cases "addToProvenanceChain d1 (read_fault (first_attempt e))
        (insert_fault (first_attempt e)) (uuid (first_attempt e)) (lastHash t)
        (calculateEventHash H (eventData (uuid (first_attempt e)) (now (first_attempt e))
           (rtc_iso (first_attempt e)) et td (calculateImageHash H img) (lastHash t))
           (Some (sr_signature info)))")
      case (Inl x)
      with assms(6) \<open>signData _ _ _ = Inr info\<close> logged
      have u: "createUnsignedRecord H (t\<lparr>db := d1\<rparr>) (second_attempt e) et td img = (r, t')"
        by (simp add: createProvenanceRecord_def Let_def)
      from c1 have "columns_parse parse (db (t\<lparr>db := d1\<rparr>))" by simp
      from createUnsignedRecord_columns [OF this assms(2-4) u] show ?thesis .
    next
      case (Inr pd)
      obtain p d2 where pd: "pd = (p, d2)" by (cases pd)
      from addToProvenanceChain_events [OF Inr [unfolded pd]] have "events d2 = events d1" .
      moreover from assms(6) \<open>signData _ _ _ = Inr info\<close> logged Inr pd
      have "db t' = d2" by (clarsimp simp: createProvenanceRecord_def Let_def)
      ultimately have ev: "events (db t') = events d1" by simp
      from c1 show ?thesis unfolding columns_parse_events [OF ev] .
    qed
  qed
qed

lemma create_all_columns:
  assumes "columns_parse parse (db t)"
    and "parse ''{}'' \<noteq> None"
    and "\<forall>c\<in>set cs. parse (JSON_stringify (creation_trigger c)) \<noteq> None"
    and "parse (JSON_stringify (JObject [(''signed'', JBool False),
           (''reason'', JString ''Crypto device unavailable'')])) \<noteq> None"
    and "\<forall>info. parse (JSON_stringify (sign_result_json info)) \<noteq> None"
    and "create_all H t cs = (rs, t')"
  shows "columns_parse parse (db t')"
  using assms(1,3,6)
proof (induction cs arbitrary: t rs)
  case Nil
  then show ?case by simp
next
  case (Cons c cs)
  obtain r t1 where s: "createProvenanceRecord H t (creation_env c) (creation_type c)
      (creation_trigger c) (creation_image c) = (r, t1)"
    by (cases "createProvenanceRecord H t (creation_env c) (creation_type c)
      (creation_trigger c) (creation_image c)")
  from Cons.prems(3) s obtain rs1 where a: "create_all H t1 cs = (rs1, t')"
    by (auto split: prod.splits)
  from Cons.prems(2) have c: "parse (JSON_stringify (creation_trigger c)) \<noteq> None"
    and cs: "\<forall>c\<in>set cs. parse (JSON_stringify (creation_trigger c)) \<noteq> None"
    by simp_all
  from createProvenanceRecord_columns [OF Cons.prems(1) assms(2) c assms(4,5) s]
  have "columns_parse parse (db t1)" .
  from Cons.IH [OF this cs a] show ?case .
qed

lemma verifyEvent_on_written_store:
  assumes "parse ''{}'' \<noteq> None"
    and "\<forall>c\<in>set cs. parse (JSON_stringify (creation_trigger c)) \<noteq> None"
    and "parse (JSON_stringify (JObject [(''signed'', JBool False),
           (''reason'', JString ''Crypto device unavailable'')])) \<noteq> None"
    and "\<forall>info. parse (JSON_stringify (sign_result_json info)) \<noteq> None"
    and "create_all H (new_tracker \<lparr>events = [], provenance_chain = []\<rparr> dev) cs = (rs, t)"
  shows "\<exists>res. verifyEvent parse t fault random eventId' = Inr res"
proof -
  have "columns_parse parse (db (new_tracker \<lparr>events = [], provenance_chain = []\<rparr> dev))"
    by (simp add: columns_parse_def new_tracker_def)
  from create_all_columns [OF this assms(1-5)] have "columns_parse parse (db t)" .
  from verifyEvent_returns [OF this] show ?thesis .
qed

end
